theory Spec2Isabelle
  imports Complex_Main "HOL-Library.Multiset"
begin

section \<open>JavaScript numbers\<close>

text \<open>
  The scorer computes on JavaScript numbers. A number is modelled as a real number or one
  of the three special values of IEEE 754, with the arithmetic of the language on the
  special values: \<open>NaN\<close> is contagious, every comparison with \<open>NaN\<close> is false,
  \<open>x / 0\<close> is an infinity or \<open>NaN\<close>. Finite results are exact: rounding, overflow
  to an infinity and the sign of zero are not modelled.
\<close>

datatype jsnum = Fin real | PInf | NInf | NaN

fun isFinite :: "jsnum \<Rightarrow> bool" where
  "isFinite (Fin r) = True"
| "isFinite PInf = False"
| "isFinite NInf = False"
| "isFinite NaN = False"

text \<open>The real number a finite value stands for (0 for the special values).\<close>

fun num_val :: "jsnum \<Rightarrow> real" where
  "num_val (Fin r) = r"
| "num_val PInf = 0"
| "num_val NInf = 0"
| "num_val NaN = 0"

fun jneg :: "jsnum \<Rightarrow> jsnum" where
  "jneg (Fin r) = Fin (- r)"
| "jneg PInf = NInf"
| "jneg NInf = PInf"
| "jneg NaN = NaN"

fun jadd :: "jsnum \<Rightarrow> jsnum \<Rightarrow> jsnum" where
  "jadd (Fin a) (Fin b) = Fin (a + b)"
| "jadd (Fin a) PInf = PInf"
| "jadd (Fin a) NInf = NInf"
| "jadd PInf (Fin b) = PInf"
| "jadd PInf PInf = PInf"
| "jadd PInf NInf = NaN"
| "jadd NInf (Fin b) = NInf"
| "jadd NInf NInf = NInf"
| "jadd NInf PInf = NaN"
| "jadd NaN b = NaN"
| "jadd a NaN = NaN"

definition jsub :: "jsnum \<Rightarrow> jsnum \<Rightarrow> jsnum" where
  "jsub a b = jadd a (jneg b)"

fun jmul :: "jsnum \<Rightarrow> jsnum \<Rightarrow> jsnum" where
  "jmul (Fin a) (Fin b) = Fin (a * b)"
| "jmul (Fin a) PInf = (if a = 0 then NaN else if 0 < a then PInf else NInf)"
| "jmul (Fin a) NInf = (if a = 0 then NaN else if 0 < a then NInf else PInf)"
| "jmul PInf (Fin b) = (if b = 0 then NaN else if 0 < b then PInf else NInf)"
| "jmul NInf (Fin b) = (if b = 0 then NaN else if 0 < b then NInf else PInf)"
| "jmul PInf PInf = PInf"
| "jmul PInf NInf = NInf"
| "jmul NInf PInf = NInf"
| "jmul NInf NInf = PInf"
| "jmul NaN b = NaN"
| "jmul a NaN = NaN"

fun jdiv :: "jsnum \<Rightarrow> jsnum \<Rightarrow> jsnum" where
  "jdiv (Fin a) (Fin b) =
     (if b = 0 then (if a = 0 then NaN else if 0 < a then PInf else NInf) else Fin (a / b))"
| "jdiv (Fin a) PInf = Fin 0"
| "jdiv (Fin a) NInf = Fin 0"
| "jdiv PInf (Fin b) = (if 0 \<le> b then PInf else NInf)"
| "jdiv NInf (Fin b) = (if 0 \<le> b then NInf else PInf)"
| "jdiv PInf PInf = NaN"
| "jdiv PInf NInf = NaN"
| "jdiv NInf PInf = NaN"
| "jdiv NInf NInf = NaN"
| "jdiv NaN b = NaN"
| "jdiv a NaN = NaN"

text \<open>\<open>a < b\<close>, \<open>a > b\<close>, \<open>a <= b\<close> and \<open>a === b\<close> on numbers.\<close>

fun jlt :: "jsnum \<Rightarrow> jsnum \<Rightarrow> bool" where
  "jlt (Fin a) (Fin b) = (a < b)"
| "jlt (Fin a) PInf = True"
| "jlt (Fin a) NInf = False"
| "jlt PInf b = False"
| "jlt NInf (Fin b) = True"
| "jlt NInf PInf = True"
| "jlt NInf NInf = False"
| "jlt NaN b = False"
| "jlt a NaN = False"

definition jgt :: "jsnum \<Rightarrow> jsnum \<Rightarrow> bool" where
  "jgt a b = jlt b a"

fun jeq :: "jsnum \<Rightarrow> jsnum \<Rightarrow> bool" where
  "jeq (Fin a) (Fin b) = (a = b)"
| "jeq PInf PInf = True"
| "jeq NInf NInf = True"
| "jeq a b = False"

definition jle :: "jsnum \<Rightarrow> jsnum \<Rightarrow> bool" where
  "jle a b = (jlt a b \<or> jeq a b)"

definition jge :: "jsnum \<Rightarrow> jsnum \<Rightarrow> bool" where
  "jge a b = jle b a"

text \<open>\<open>Math.max\<close> and \<open>Math.min\<close> of two numbers: \<open>NaN\<close> when either is \<open>NaN\<close>.\<close>

fun Math_max :: "jsnum \<Rightarrow> jsnum \<Rightarrow> jsnum" where
  "Math_max NaN b = NaN"
| "Math_max a NaN = NaN"
| "Math_max a b = (if jlt a b then b else a)"

fun Math_min :: "jsnum \<Rightarrow> jsnum \<Rightarrow> jsnum" where
  "Math_min NaN b = NaN"
| "Math_min a NaN = NaN"
| "Math_min a b = (if jlt b a then b else a)"

text \<open>\<open>Math.max(...xs)\<close>: \<open>-Infinity\<close> on no argument.\<close>

definition Math_max_list :: "jsnum list \<Rightarrow> jsnum" where
  "Math_max_list xs = foldl Math_max NInf xs"

fun Math_abs :: "jsnum \<Rightarrow> jsnum" where
  "Math_abs (Fin r) = Fin \<bar>r\<bar>"
| "Math_abs PInf = PInf"
| "Math_abs NInf = PInf"
| "Math_abs NaN = NaN"

fun Math_sqrt :: "jsnum \<Rightarrow> jsnum" where
  "Math_sqrt (Fin r) = (if r < 0 then NaN else Fin (sqrt r))"
| "Math_sqrt PInf = PInf"
| "Math_sqrt NInf = NaN"
| "Math_sqrt NaN = NaN"

fun Math_exp :: "jsnum \<Rightarrow> jsnum" where
  "Math_exp (Fin r) = Fin (exp r)"
| "Math_exp PInf = PInf"
| "Math_exp NInf = Fin 0"
| "Math_exp NaN = NaN"

fun Math_log10 :: "jsnum \<Rightarrow> jsnum" where
  "Math_log10 (Fin r) = (if r < 0 then NaN else if r = 0 then NInf else Fin (log 10 r))"
| "Math_log10 PInf = PInf"
| "Math_log10 NInf = NaN"
| "Math_log10 NaN = NaN"

text \<open>\<open>Math.round\<close> rounds half up: \<open>floor (x + 0.5)\<close>.\<close>

fun Math_round :: "jsnum \<Rightarrow> jsnum" where
  "Math_round (Fin r) = Fin (of_int \<lfloor>r + 1 / 2\<rfloor>)"
| "Math_round PInf = PInf"
| "Math_round NInf = NInf"
| "Math_round NaN = NaN"

text \<open>\<open>clamp\<close> of leaderboard.ts: \<open>Math.min(max, Math.max(min, value))\<close>.\<close>

definition clamp :: "jsnum \<Rightarrow> jsnum \<Rightarrow> jsnum \<Rightarrow> jsnum" where
  "clamp v lo hi = Math_min hi (Math_max lo v)"

text \<open>\<open>x || d\<close> on a number: \<open>d\<close> when \<open>x\<close> is 0 or \<open>NaN\<close>.\<close>

definition num_or :: "jsnum \<Rightarrow> jsnum \<Rightarrow> jsnum" where
  "num_or x d = (if x = Fin 0 \<or> x = NaN then d else x)"


section \<open>The scoring module\<close>

datatype FilterReason = max_drawdown_exceeded | scalping_penalty

record ScoringParams =
  smoothPnlWeight :: jsnum
  winRateWeight :: jsnum
  pnlWeight :: jsnum
  tradeFreqWeight :: jsnum
  optimalTrades :: jsnum
  tradeSigma :: jsnum
  pnlReference :: jsnum
  maxDrawdownLimit :: jsnum
  scalpingThreshold :: jsnum

definition DEFAULT_SCORING_PARAMS :: ScoringParams where
  "DEFAULT_SCORING_PARAMS = \<lparr>
     smoothPnlWeight = Fin (45 / 100),
     winRateWeight = Fin (30 / 100),
     pnlWeight = Fin (15 / 100),
     tradeFreqWeight = Fin (10 / 100),
     optimalTrades = Fin 100,
     tradeSigma = Fin 150,
     pnlReference = Fin 100000,
     maxDrawdownLimit = Fin (80 / 100),
     scalpingThreshold = Fin 100 \<rparr>"

text \<open>
  A point of a PnL series is a number, a pair \<open>[timestamp, pnl]\<close> whose second
  component is a number or a string, or an object with optional fields \<open>timestamp\<close>,
  \<open>value\<close> and \<open>pnl\<close>. An absent field is \<open>None\<close>.
\<close>

datatype numstr = NumV jsnum | StrV string

datatype PnlPoint =
    PtNum jsnum
  | PtPair jsnum numstr
  | PtObj (pt_timestamp: "jsnum option") (pt_value: "numstr option") (pt_pnl: "numstr option")

record AccountStats =
  as_realizedPnl :: jsnum
  as_numTrades :: jsnum
  as_numWins :: jsnum
  as_numLosses :: jsnum
  as_pnlList :: "PnlPoint list option"

record WeightedComponents =
  wc_smoothPnl :: jsnum
  wc_winRate :: jsnum
  wc_pnl :: jsnum
  wc_tradeFreq :: jsnum

record ScoringDetails =
  smoothPnlScore :: jsnum
  d_maxDrawdown :: jsnum
  rawWinRate :: jsnum
  adjWinRate :: jsnum
  normalizedPnl :: jsnum
  tradeFreqScore :: jsnum
  weightedComponents :: WeightedComponents

record ScoringResult =
  sr_score :: jsnum
  sr_filtered :: bool
  sr_filterReason :: "FilterReason option"
  sr_details :: ScoringDetails

record SmoothPnlResult =
  sp_score :: jsnum
  sp_maxDrawdown :: jsnum
  sp_ulcerIndex :: jsnum
  sp_upFraction :: jsnum

subsection \<open>computeSmoothPnlScore\<close>

text \<open>
  The value \<open>v\<close> read from a point: the last element of an array, \<open>pt.pnl ?? pt.value\<close>
  of an object, the point itself otherwise. \<open>None\<close> is \<open>undefined\<close>.
\<close>

fun pointValue :: "PnlPoint \<Rightarrow> numstr option" where
  "pointValue (PtPair t v) = Some v"
| "pointValue (PtObj t value pnl) = (case pnl of Some p \<Rightarrow> Some p | None \<Rightarrow> value)"
| "pointValue (PtNum n) = Some (NumV n)"

text \<open>
  \<open>parsed\<close>: a string goes through \<open>parseFloat\<close>, which is a parameter \<open>pf\<close> of the
  model; the point contributes a value when \<open>parsed\<close> is a finite number.
\<close>

definition parsedValue :: "(string \<Rightarrow> jsnum) \<Rightarrow> PnlPoint \<Rightarrow> jsnum option" where
  "parsedValue pf pt =
     (case pointValue pt of
        None \<Rightarrow> None
      | Some (StrV s) \<Rightarrow> if isFinite (pf s) then Some (pf s) else None
      | Some (NumV n) \<Rightarrow> if isFinite n then Some n else None)"

definition extractValues :: "(string \<Rightarrow> jsnum) \<Rightarrow> PnlPoint list \<Rightarrow> jsnum list" where
  "extractValues pf pnlList = List.map_filter (parsedValue pf) pnlList"

text \<open>One round of the drawdown loop on the state \<open>(peak, mdd, ddSqSum)\<close>.\<close>

definition ddStep :: "jsnum \<times> jsnum \<times> jsnum \<Rightarrow> jsnum \<Rightarrow> jsnum \<times> jsnum \<times> jsnum" where
  "ddStep st xi =
     (case st of (peak, mdd, ddSqSum) \<Rightarrow>
        let peak' = (if jgt xi peak then xi else peak);
            dd = (if jgt peak' (Fin 0)
                  then (let d = jdiv (jsub peak' xi) peak' in if jlt d (Fin 0) then Fin 0 else d)
                  else Fin 0)
        in (peak', Math_max mdd dd, jadd ddSqSum (jmul dd dd)))"

text \<open>The number of indices \<open>i\<close> from 1 with \<open>x[i] > x[i - 1]\<close>.\<close>

fun upCount :: "jsnum list \<Rightarrow> nat" where
  "upCount (a # b # xs) = (if jgt b a then 1 else 0) + upCount (b # xs)"
| "upCount xs = 0"

definition zeroSmooth :: SmoothPnlResult where
  "zeroSmooth = \<lparr> sp_score = Fin 0, sp_maxDrawdown = Fin 0, sp_ulcerIndex = Fin 0,
                   sp_upFraction = Fin 0 \<rparr>"

definition computeSmoothPnlScore :: "(string \<Rightarrow> jsnum) \<Rightarrow> PnlPoint list \<Rightarrow> SmoothPnlResult" where
  "computeSmoothPnlScore pf pnlList =
     (let vals = extractValues pf pnlList in
      if length vals < 2 then zeroSmooth
      else
        let base = hd vals;
            x = map (\<lambda>v. jsub v base) vals;
            n = length x;
            (peak, mdd, ddSqSum) = foldl ddStep (hd x, Fin 0, Fin 0) x;
            ulcer = Math_sqrt (jdiv ddSqSum (Fin (real n)));
            upFrac = jdiv (Fin (real (upCount x))) (Fin (real n - 1));
            lst = last x;
            maxAbs = Math_max_list (map Math_abs x);
            R = (if jgt lst (Fin 0) \<and> jgt maxAbs (Fin 0) then jdiv lst maxAbs else Fin 0);
            score = jdiv (jmul (Math_max (Fin 0) R) upFrac) (jadd (jadd (Fin 1) mdd) ulcer)
        in \<lparr> sp_score = (if isFinite score then score else Fin 0),
             sp_maxDrawdown = mdd,
             sp_ulcerIndex = ulcer,
             sp_upFraction = upFrac \<rparr>)"

subsection \<open>The other components\<close>

definition computeAdjustedWinRate :: "jsnum \<Rightarrow> jsnum \<Rightarrow> jsnum" where
  "computeAdjustedWinRate numWins numLosses =
     (let baseWinRate = jdiv (jadd numWins (Fin 1)) (jadd (jadd numWins numLosses) (Fin 2)) in
      if jeq numLosses (Fin 0) \<and> jgt numWins (Fin 0) then jmul (Fin (7 / 10)) baseWinRate
      else if jgt baseWinRate (Fin (95 / 100)) \<and> jgt (jadd numWins numLosses) (Fin 20)
      then jmul (Fin (8 / 10)) baseWinRate
      else baseWinRate)"

definition computeNormalizedPnl :: "jsnum \<Rightarrow> jsnum \<Rightarrow> jsnum" where
  "computeNormalizedPnl realizedPnl reference =
     (if jle realizedPnl (Fin 0) then Fin 0
      else
        let logPnl = Math_log10 (jadd realizedPnl (Fin 1));
            logRef = Math_log10 reference
        in Math_min (Fin 1) (Math_max (Fin 0) (jdiv logPnl logRef)))"

definition computeTradeFreqScore :: "jsnum \<Rightarrow> jsnum \<Rightarrow> jsnum \<Rightarrow> jsnum \<Rightarrow> jsnum" where
  "computeTradeFreqScore numTrades optimal sigma threshold =
     (if jle numTrades (Fin 0) then Fin 0
      else
        let diff = jsub numTrades optimal;
            score = Math_exp (jdiv (jneg (jmul diff diff)) (jmul (jmul (Fin 2) sigma) sigma))
        in if jgt numTrades threshold
           then (let excess = jsub numTrades threshold in
                 if jle excess (Fin 50) then jmul score (Fin (7 / 10))
                 else if jle excess (Fin 100) then jmul score (Fin (4 / 10))
                 else if jle excess (Fin 200) then jmul score (Fin (2 / 10))
                 else jmul score (Fin (5 / 100)))
           else score)"

subsection \<open>computePerformanceScore\<close>

definition zeroComponents :: WeightedComponents where
  "zeroComponents = \<lparr> wc_smoothPnl = Fin 0, wc_winRate = Fin 0, wc_pnl = Fin 0,
                       wc_tradeFreq = Fin 0 \<rparr>"

definition createZeroResult :: ScoringResult where
  "createZeroResult = \<lparr>
     sr_score = Fin 0, sr_filtered = False, sr_filterReason = None,
     sr_details = \<lparr> smoothPnlScore = Fin 0, d_maxDrawdown = Fin 0, rawWinRate = Fin 0,
                     adjWinRate = Fin 0, normalizedPnl = Fin 0, tradeFreqScore = Fin 0,
                     weightedComponents = zeroComponents \<rparr> \<rparr>"

definition createFilteredResult :: "jsnum \<Rightarrow> FilterReason \<Rightarrow> ScoringResult" where
  "createFilteredResult maxDrawdown reason = \<lparr>
     sr_score = Fin 0, sr_filtered = True, sr_filterReason = Some reason,
     sr_details = \<lparr> smoothPnlScore = Fin 0, d_maxDrawdown = maxDrawdown, rawWinRate = Fin 0,
                     adjWinRate = Fin 0, normalizedPnl = Fin 0, tradeFreqScore = Fin 0,
                     weightedComponents = zeroComponents \<rparr> \<rparr>"

text \<open>\<open>!Number.isFinite(n) || n < 0\<close>, the test of the three input validations.\<close>

definition invalidCount :: "jsnum \<Rightarrow> bool" where
  "invalidCount n = (\<not> isFinite n \<or> jlt n (Fin 0))"

definition computePerformanceScore ::
  "(string \<Rightarrow> jsnum) \<Rightarrow> AccountStats \<Rightarrow> ScoringParams \<Rightarrow> ScoringResult" where
  "computePerformanceScore pf stats params =
     (let realizedPnl = as_realizedPnl stats;
          numTrades = as_numTrades stats;
          numWins = as_numWins stats;
          numLosses = as_numLosses stats
      in
      if invalidCount numTrades then createZeroResult
      else if invalidCount numWins then createZeroResult
      else if invalidCount numLosses then createZeroResult
      else
        let smoothPnlResult =
              (case as_pnlList stats of
                 None \<Rightarrow> zeroSmooth
               | Some pnlList \<Rightarrow>
                   if 2 \<le> length pnlList then computeSmoothPnlScore pf pnlList else zeroSmooth);
            smoothPnl = sp_score smoothPnlResult;
            maxDrawdown = sp_maxDrawdown smoothPnlResult
        in
        if jgt maxDrawdown (maxDrawdownLimit params)
        then createFilteredResult maxDrawdown max_drawdown_exceeded
        else
          let rawWin = (if jgt (jadd numWins numLosses) (Fin 0)
                        then jdiv numWins (jadd numWins numLosses) else Fin 0);
              adjWin = computeAdjustedWinRate numWins numLosses;
              normPnl = computeNormalizedPnl realizedPnl (pnlReference params);
              tradeFreq = computeTradeFreqScore numTrades (optimalTrades params)
                            (tradeSigma params) (scalpingThreshold params);
              weightedSmooth = jmul (smoothPnlWeight params) smoothPnl;
              weightedWinRate = jmul (winRateWeight params) adjWin;
              weightedPnl = jmul (pnlWeight params) normPnl;
              weightedFreq = jmul (tradeFreqWeight params) tradeFreq;
              score = jadd (jadd (jadd weightedSmooth weightedWinRate) weightedPnl) weightedFreq
          in \<lparr> sr_score = (if isFinite score then score else Fin 0),
               sr_filtered = False,
               sr_filterReason = None,
               sr_details = \<lparr> smoothPnlScore = smoothPnl, d_maxDrawdown = maxDrawdown,
                               rawWinRate = rawWin, adjWinRate = adjWin,
                               normalizedPnl = normPnl, tradeFreqScore = tradeFreq,
                               weightedComponents =
                                 \<lparr> wc_smoothPnl = weightedSmooth, wc_winRate = weightedWinRate,
                                   wc_pnl = weightedPnl, wc_tradeFreq = weightedFreq \<rparr> \<rparr> \<rparr>)"


section \<open>The leaderboard service: phase 1\<close>

text \<open>\<open>x ?? d\<close>: the default \<open>d\<close> when \<open>x\<close> is \<open>undefined\<close> or \<open>null\<close>.\<close>

definition nullish :: "'a option \<Rightarrow> 'a \<Rightarrow> 'a" where
  "nullish x d = (case x of None \<Rightarrow> d | Some v \<Rightarrow> v)"

definition toLowerCaseChar :: "char \<Rightarrow> char" where
  "toLowerCaseChar c =
     (let n = (of_char c :: nat) in if 65 \<le> n \<and> n \<le> 90 then char_of (n + 32) else c)"

definition toLowerCase :: "string \<Rightarrow> string" where
  "toLowerCase s = map toLowerCaseChar s"

text \<open>A number of days or a page in a template string: the decimal digits.\<close>

definition showDigit :: "nat \<Rightarrow> char" where
  "showDigit n = ''0123456789'' ! n"

fun showNat :: "nat \<Rightarrow> string" where
  "showNat n = (if n < 10 then [showDigit n] else showNat (n div 10) @ [showDigit (n mod 10)])"

declare showNat.simps [simp del]

text \<open>
  Modelled from the spec: \<open>normalizeAddress\<close> of packages/ts-lib/src/utils, which is not
  among the sources; the spec normalizes an address to lowercase, and the tests of the
  function expect exactly that.
\<close>

definition normalizeAddress :: "string \<Rightarrow> string" where
  "normalizeAddress a = toLowerCase a"

record RawStats =
  rs_maxDrawdown :: "jsnum option"
  rs_totalPnl :: "jsnum option"
  rs_openPosCount :: "jsnum option"
  rs_closePosCount :: "jsnum option"
  rs_avgPosDuration :: "jsnum option"
  rs_winRate :: "jsnum option"

record LeaderboardRawEntry =
  r_address :: string
  r_winRate :: "jsnum option"
  r_executedOrders :: "jsnum option"
  r_realizedPnl :: "jsnum option"
  r_remark :: "string option"
  r_labels :: "string list option"
  r_pnlList :: "PnlPoint list option"
  r_accountValue :: "jsnum option"
  r_startingEquity :: "jsnum option"
  r_maxDrawdown :: "jsnum option"
  r_numWins :: "jsnum option"
  r_numLosses :: "jsnum option"
  r_stats :: "RawStats option"

record AddressStats =
  a_winRate :: "jsnum option"
  a_openPosCount :: "jsnum option"
  a_closePosCount :: "jsnum option"
  a_avgPosDuration :: "jsnum option"
  a_totalPnl :: "jsnum option"
  a_maxDrawdown :: "jsnum option"

text \<open>
  \<open>meta\<close> is the raw entry spread into an object (\<open>m_entry\<close>, with the keys the object
  literal overrides already replaced), the keys the scorer adds, and the \<open>stats\<close> blob
  that enrichment merges in.
\<close>

record Meta =
  m_entry :: LeaderboardRawEntry
  m_scoringDetails :: "ScoringDetails option"
  m_filtered :: bool
  m_filterReason :: "FilterReason option"
  m_apiMaxDrawdown :: "jsnum option"
  m_stats :: "AddressStats option"

text \<open>
  An entry as the mapping step of \<open>scoreEntries\<close> builds it; \<open>RankedEntry\<close> adds
  \<open>rank\<close> and \<open>weight\<close>. \<open>null\<close> is \<open>None\<close>.
\<close>

record ScoredEntry =
  address :: string
  score :: jsnum
  filtered :: bool
  filterReason :: "FilterReason option"
  winRate :: jsnum
  executedOrders :: jsnum
  realizedPnl :: jsnum
  efficiency :: jsnum
  pnlConsistency :: jsnum
  remark :: "string option"
  labels :: "string list"
  statOpenPositions :: "jsnum option"
  statClosedPositions :: "jsnum option"
  statAvgPosDuration :: "jsnum option"
  statTotalPnl :: "jsnum option"
  statMaxDrawdown :: "jsnum option"
  meta :: Meta

record RankedEntry = ScoredEntry +
  rank :: nat
  weight :: jsnum

definition apiMaxDrawdown :: "LeaderboardRawEntry \<Rightarrow> jsnum" where
  "apiMaxDrawdown entry =
     nullish (case r_stats entry of None \<Rightarrow> None | Some s \<Rightarrow> rs_maxDrawdown s)
       (nullish (r_maxDrawdown entry) (Fin 0))"

text \<open>The callback of \<open>entries.map\<close> in \<open>scoreEntries\<close>.\<close>

definition scoreEntry ::
  "(string \<Rightarrow> jsnum) \<Rightarrow> ScoringParams \<Rightarrow> jsnum \<Rightarrow> LeaderboardRawEntry \<Rightarrow> ScoredEntry" where
  "scoreEntry pf scoringParams maxTradesHardLimit entry =
     (let addr = normalizeAddress (r_address entry);
          winRt = clamp (nullish (r_winRate entry) (Fin 0)) (Fin 0) (Fin 1);
          executed = nullish (r_executedOrders entry) (Fin 0);
          pnl = nullish (r_realizedPnl entry) (Fin 0);
          eff = (if jgt executed (Fin 0) then jdiv pnl executed else pnl);
          apiMdd = apiMaxDrawdown entry
      in
      if jgt apiMdd (maxDrawdownLimit scoringParams) then
        \<lparr> address = addr, score = Fin 0, filtered = True,
          filterReason = Some max_drawdown_exceeded,
          winRate = winRt, executedOrders = executed, realizedPnl = pnl, efficiency = eff,
          pnlConsistency = Fin 0, remark = r_remark entry, labels = nullish (r_labels entry) [],
          statOpenPositions = None, statClosedPositions = None, statAvgPosDuration = None,
          statTotalPnl = None, statMaxDrawdown = Some apiMdd,
          meta = \<lparr> m_entry = entry, m_scoringDetails = None, m_filtered = True,
                   m_filterReason = Some max_drawdown_exceeded,
                   m_apiMaxDrawdown = Some apiMdd, m_stats = None \<rparr> \<rparr>
      else if jgt executed maxTradesHardLimit then
        \<lparr> address = addr, score = Fin 0, filtered = True,
          filterReason = Some scalping_penalty,
          winRate = winRt, executedOrders = executed, realizedPnl = pnl, efficiency = eff,
          pnlConsistency = Fin 0, remark = r_remark entry, labels = nullish (r_labels entry) [],
          statOpenPositions = None, statClosedPositions = None, statAvgPosDuration = None,
          statTotalPnl = None, statMaxDrawdown = Some apiMdd,
          meta = \<lparr> m_entry = entry\<lparr> r_executedOrders := Some executed \<rparr>,
                   m_scoringDetails = None, m_filtered = True,
                   m_filterReason = Some scalping_penalty,
                   m_apiMaxDrawdown = None, m_stats = None \<rparr> \<rparr>
      else
        let numTrades = executed;
            numWins = Math_round (jmul numTrades winRt);
            numLosses = jsub numTrades numWins;
            pnlList = nullish (r_pnlList entry) [];
            scoringResult = computePerformanceScore pf
              \<lparr> as_realizedPnl = pnl, as_numTrades = numTrades, as_numWins = numWins,
                as_numLosses = numLosses, as_pnlList = Some pnlList \<rparr> scoringParams;
            effectiveMaxDrawdown = Math_max apiMdd (d_maxDrawdown (sr_details scoringResult))
        in
        \<lparr> address = addr, score = sr_score scoringResult,
          filtered = sr_filtered scoringResult,
          filterReason = sr_filterReason scoringResult,
          winRate = winRt, executedOrders = executed, realizedPnl = pnl, efficiency = eff,
          pnlConsistency = smoothPnlScore (sr_details scoringResult),
          remark = r_remark entry, labels = nullish (r_labels entry) [],
          statOpenPositions = None, statClosedPositions = None, statAvgPosDuration = None,
          statTotalPnl = None, statMaxDrawdown = Some effectiveMaxDrawdown,
          meta = \<lparr> m_entry = entry\<lparr> r_numWins := Some numWins, r_numLosses := Some numLosses \<rparr>,
                   m_scoringDetails =
                     Some ((sr_details scoringResult)\<lparr> d_maxDrawdown := effectiveMaxDrawdown \<rparr>),
                   m_filtered = sr_filtered scoringResult,
                   m_filterReason = sr_filterReason scoringResult,
                   m_apiMaxDrawdown = Some apiMdd, m_stats = None \<rparr> \<rparr>)"

text \<open>\<open>base\<close>: the mapped entries, without those whose score is not finite.\<close>

definition baseEntries ::
  "(string \<Rightarrow> jsnum) \<Rightarrow> ScoringParams \<Rightarrow> jsnum \<Rightarrow> LeaderboardRawEntry list \<Rightarrow> ScoredEntry list" where
  "baseEntries pf scoringParams maxTradesHardLimit entries =
     filter (\<lambda>e. isFinite (score e) \<or> filtered e)
       (map (scoreEntry pf scoringParams maxTradesHardLimit) entries)"

text \<open>
  \<open>scored\<close> before the fallback: \<open>base\<close> without the entries that failed a hard filter
  and without the suspicious perfect records.
\<close>

definition keepWinRate :: "ScoredEntry \<Rightarrow> bool" where
  "keepWinRate e = (jlt (winRate e) (Fin (999 / 1000)) \<or> jlt (executedOrders e) (Fin 10))"

definition survivors :: "ScoredEntry list \<Rightarrow> ScoredEntry list" where
  "survivors base = filter keepWinRate (filter (\<lambda>e. \<not> filtered e) base)"

text \<open>
  \<open>scored.sort((a, b) => b.score - a.score)\<close>: the sort of an array is stable, and on
  finite scores the comparator orders by score, descending. Every score in \<open>base\<close> is
  finite (lemma \<open>baseEntries_score_finite\<close> below).
\<close>

definition sortByScore :: "ScoredEntry list \<Rightarrow> ScoredEntry list" where
  "sortByScore scored = sort_key (\<lambda>e. - num_val (score e)) scored"

definition totalScoreOf :: "nat \<Rightarrow> ScoredEntry list \<Rightarrow> jsnum" where
  "totalScoreOf selectCount scored =
     num_or (foldl (\<lambda>sum e. jadd sum (Math_max (score e) (Fin 0))) (Fin 0)
               (take selectCount scored)) (Fin 1)"

definition rankAndWeigh :: "nat \<Rightarrow> ScoredEntry list \<Rightarrow> RankedEntry list" where
  "rankAndWeigh selectCount scored =
     (let totalScore = totalScoreOf selectCount scored in
      map (\<lambda>(idx, entry). ScoredEntry.extend entry
             \<lparr> rank = idx + 1,
               weight = (if idx < selectCount
                         then jdiv (Math_max (score entry) (Fin 0)) totalScore else Fin 0) \<rparr>)
          (enumerate 0 scored))"

definition scoreEntries ::
  "nat \<Rightarrow> (string \<Rightarrow> jsnum) \<Rightarrow> ScoringParams \<Rightarrow> jsnum \<Rightarrow> LeaderboardRawEntry list
     \<Rightarrow> RankedEntry list" where
  "scoreEntries selectCount pf scoringParams maxTradesHardLimit entries =
     (let base = baseEntries pf scoringParams maxTradesHardLimit entries;
          scored = survivors base;
          scored' = (if scored = [] then base else scored)
      in rankAndWeigh selectCount (sortByScore scored'))"


section \<open>The leaderboard service: enrichment and phase 2\<close>

text \<open>\<open>Number(x)\<close> of an optional number: \<open>Number(undefined)\<close> is \<open>NaN\<close>.\<close>

definition NumberOpt :: "jsnum option \<Rightarrow> jsnum" where
  "NumberOpt x = (case x of None \<Rightarrow> NaN | Some n \<Rightarrow> n)"

text \<open>
  \<open>Number.isFinite(Number(s)) ? Number(s) : old\<close>, the update of each of the five
  \<open>stat\<close> fields.
\<close>

definition finiteOr :: "jsnum option \<Rightarrow> jsnum option \<Rightarrow> jsnum option" where
  "finiteOr s old = (if isFinite (NumberOpt s) then Some (NumberOpt s) else old)"

definition applyStatsToEntry :: "RankedEntry \<Rightarrow> AddressStats \<Rightarrow> RankedEntry" where
  "applyStatsToEntry entry stats =
     (let e1 = (case a_winRate stats of
                  Some w \<Rightarrow> if isFinite w then entry\<lparr> winRate := clamp w (Fin 0) (Fin 1) \<rparr>
                            else entry
                | None \<Rightarrow> entry)
      in e1\<lparr> statOpenPositions := finiteOr (a_openPosCount stats) (statOpenPositions e1),
             statClosedPositions := finiteOr (a_closePosCount stats) (statClosedPositions e1),
             statAvgPosDuration := finiteOr (a_avgPosDuration stats) (statAvgPosDuration e1),
             statTotalPnl := finiteOr (a_totalPnl stats) (statTotalPnl e1),
             statMaxDrawdown := finiteOr (a_maxDrawdown stats) (statMaxDrawdown e1),
             meta := (meta e1)\<lparr> m_stats := Some stats \<rparr> \<rparr>)"

text \<open>
  \<open>applyAddressStats\<close>: \<open>statsMap\<close> is what \<open>fetchAddressStatsBatch\<close> returned, keyed by
  lower-case address; an entry without statistics stays as it is.
\<close>

definition applyAddressStats ::
  "(string \<Rightarrow> AddressStats option) \<Rightarrow> RankedEntry list \<Rightarrow> RankedEntry list" where
  "applyAddressStats statsMap entries =
     map (\<lambda>entry. case statsMap (toLowerCase (address entry)) of
                     Some stat \<Rightarrow> applyStatsToEntry entry stat
                   | None \<Rightarrow> entry) entries"

record LeaderboardOptions =
  o_topN :: nat
  o_selectCount :: nat
  o_enrichCount :: nat

text \<open>\<open>this.enrichCount\<close>, as the constructor sets it.\<close>

definition enrichCountOf :: "LeaderboardOptions \<Rightarrow> nat" where
  "enrichCountOf opts = max 0 (min (o_enrichCount opts) (o_topN opts))"

text \<open>The filter of phase 2 keeps an entry unless \<open>(statMaxDrawdown ?? 0) > limit\<close>.\<close>

definition keepEnriched :: "jsnum \<Rightarrow> RankedEntry \<Rightarrow> bool" where
  "keepEnriched limit entry = (\<not> jgt (nullish (statMaxDrawdown entry) (Fin 0)) limit)"

text \<open>
  The recalculation of the weights after phase 2 has removed an entry. \<open>topN\<close> holds the
  first \<open>selectCount\<close> objects of \<open>ranked\<close>, so \<open>topN.includes(entry)\<close> is true exactly
  of the entries at a position below \<open>selectCount\<close>.
\<close>

definition recalcWeights :: "nat \<Rightarrow> RankedEntry list \<Rightarrow> RankedEntry list" where
  "recalcWeights selectCount ranked =
     (let topN = take selectCount ranked;
          sumScores = foldl (\<lambda>sum e. jadd sum (score e)) (Fin 0) topN
      in map (\<lambda>(idx, entry).
                if idx < length topN \<and> jgt sumScores (Fin 0)
                then entry\<lparr> weight := jdiv (score entry) sumScores \<rparr>
                else entry\<lparr> weight := Fin 0 \<rparr>)
             (enumerate 0 ranked))"

text \<open>
  \<open>refreshPeriod\<close>, up to the call of \<open>persistPeriod\<close>: the result is the list \<open>ranked\<close>
  handed to persistence. The three requests are inputs of the model: \<open>raw\<close> is what
  \<open>fetchPeriod\<close> returned and \<open>statsMap\<close> what \<open>fetchAddressStatsBatch\<close> returned. The
  limit of phase 2 is read from the same setting as \<open>maxDrawdownLimit\<close> of the scoring
  parameters.
\<close>

definition refreshPeriod ::
  "LeaderboardOptions \<Rightarrow> (string \<Rightarrow> jsnum) \<Rightarrow> ScoringParams \<Rightarrow> jsnum
     \<Rightarrow> LeaderboardRawEntry list \<Rightarrow> (string \<Rightarrow> AddressStats option) \<Rightarrow> RankedEntry list" where
  "refreshPeriod opts pf scoringParams maxTradesHardLimit raw statsMap =
     (let ranked = scoreEntries (o_selectCount opts) pf scoringParams maxTradesHardLimit raw;
          enrichTarget = min (length ranked) (max (enrichCountOf opts) (o_selectCount opts * 2));
          toEnrich = take enrichTarget ranked
      in
      if toEnrich \<noteq> [] then
        let enriched = applyAddressStats statsMap toEnrich @ drop enrichTarget ranked;
            beforeCount = length enriched;
            ranked' = filter (keepEnriched (maxDrawdownLimit scoringParams)) enriched;
            filteredCount = beforeCount - length ranked'
        in if 0 < filteredCount then recalcWeights (o_selectCount opts) ranked' else ranked'
      else ranked)"

text \<open>\<open>tracked\<close>, the second list handed to \<open>persistPeriod\<close>.\<close>

definition trackedOf :: "LeaderboardOptions \<Rightarrow> RankedEntry list \<Rightarrow> RankedEntry list" where
  "trackedOf opts ranked = take (enrichCountOf opts) ranked"


section \<open>Upstream payloads\<close>

text \<open>
  A decoded response body is a JSON value. A number of a body is finite or an infinity
  (a literal such as \<open>1e999\<close> decodes to \<open>Infinity\<close>). \<open>undefined\<close>, the value of a
  missing property, is \<open>None\<close>.
\<close>

datatype json =
    JNull
  | JBool bool
  | JNum jsnum
  | JStr string
  | JArr "json list"
  | JObj "(string \<times> json) list"

text \<open>Property access; of the members of an object with one key, the last one counts.\<close>

fun jprop :: "json \<Rightarrow> string \<Rightarrow> json option" where
  "jprop (JObj kvs) k = map_of (rev kvs) k"
| "jprop v k = None"

fun truthy :: "json option \<Rightarrow> bool" where
  "truthy None = False"
| "truthy (Some JNull) = False"
| "truthy (Some (JBool b)) = b"
| "truthy (Some (JNum n)) = (n \<noteq> Fin 0 \<and> n \<noteq> NaN)"
| "truthy (Some (JStr s)) = (s \<noteq> [])"
| "truthy (Some (JArr vs)) = True"
| "truthy (Some (JObj kvs)) = True"

text \<open>
  \<open>Number(v)\<close>. The conversion of a string to a number is a parameter \<open>sn\<close> of the
  model. An array converts through its string: the empty array gives 0, an array of one
  element gives what the string of that element gives, a longer one has a comma in its
  string and gives \<open>NaN\<close>; a plain object gives \<open>NaN\<close>.
\<close>

fun toNumber :: "(string \<Rightarrow> jsnum) \<Rightarrow> json \<Rightarrow> jsnum" where
  "toNumber sn JNull = Fin 0"
| "toNumber sn (JBool b) = Fin (if b then 1 else 0)"
| "toNumber sn (JNum n) = n"
| "toNumber sn (JStr s) = sn s"
| "toNumber sn (JObj kvs) = NaN"
| "toNumber sn (JArr []) = Fin 0"
| "toNumber sn (JArr [JNull]) = Fin 0"
| "toNumber sn (JArr [JBool b]) = NaN"
| "toNumber sn (JArr [JNum n]) = n"
| "toNumber sn (JArr [JStr s]) = sn s"
| "toNumber sn (JArr [JObj kvs]) = NaN"
| "toNumber sn (JArr [JArr vs]) = toNumber sn (JArr vs)"
| "toNumber sn (JArr (v # w # vs)) = NaN"

definition NumberJ :: "(string \<Rightarrow> jsnum) \<Rightarrow> json option \<Rightarrow> jsnum" where
  "NumberJ sn v = (case v of None \<Rightarrow> NaN | Some j \<Rightarrow> toNumber sn j)"

subsection \<open>requestJson\<close>

datatype fetch_error = HttpError nat | TimeoutError | NetworkError | DecodeError | URIError

text \<open>
  The outcome of one attempt is the exception it raised (a failed \<open>fetch\<close>, a timeout, a
  status that is not ok, a body that does not decode) or the decoded body; \<open>outcome k\<close>
  is the outcome of attempt \<open>k\<close>. The loop makes attempts \<open>0 .. retries\<close> and rethrows
  the last error. The pauses between attempts are not modelled.
\<close>

function requestJsonLoop :: "nat \<Rightarrow> (nat \<Rightarrow> fetch_error + json) \<Rightarrow> nat \<Rightarrow> fetch_error + json" where
  "requestJsonLoop retries outcome attempt =
     (case outcome attempt of
        Inr body \<Rightarrow> Inr body
      | Inl err \<Rightarrow>
          if retries < attempt + 1 then Inl err
          else requestJsonLoop retries outcome (attempt + 1))"
  by pat_completeness auto
termination
  by (relation "measure (\<lambda>(retries, outcome, attempt). retries + 1 - attempt)") auto

definition requestJson :: "nat \<Rightarrow> (nat \<Rightarrow> fetch_error + json) \<Rightarrow> fetch_error + json" where
  "requestJson retries outcome = requestJsonLoop retries outcome 0"

subsection \<open>fetchAddressStat\<close>

definition finiteField :: "(string \<Rightarrow> jsnum) \<Rightarrow> json \<Rightarrow> string \<Rightarrow> jsnum option" where
  "finiteField sn data k =
     (if isFinite (NumberJ sn (jprop data k)) then Some (NumberJ sn (jprop data k)) else None)"

text \<open>The URL of the request, for the encoded address.\<close>

definition addrStatUrl :: "string \<Rightarrow> string \<Rightarrow> nat \<Rightarrow> string" where
  "addrStatUrl smartApiBase encoded period =
     smartApiBase @ ''query-addr-stat/'' @ encoded @ ''?period='' @ showNat period"

text \<open>
  The result is \<open>Inl\<close> when the function throws and \<open>Inr\<close> when it returns; \<open>null\<close> is
  \<open>None\<close>. The address is normalized and encoded before the \<open>try\<close> block:
  \<open>encodeURIComponent\<close> is a parameter \<open>enc\<close> of the model, \<open>None\<close> when it throws
  \<open>URIError\<close> (as it does on a string with a lone surrogate), and that exception
  leaves the function. The request, with 2 retries, and everything after it are inside
  the \<open>try\<close> block, whose handler returns \<open>null\<close>. \<open>upstream url k\<close> is the outcome of
  attempt \<open>k\<close> of a request to \<open>url\<close>.
\<close>

definition fetchAddressStat ::
  "string \<Rightarrow> (string \<Rightarrow> string option) \<Rightarrow> (string \<Rightarrow> jsnum)
     \<Rightarrow> (string \<Rightarrow> nat \<Rightarrow> fetch_error + json) \<Rightarrow> string \<Rightarrow> nat
     \<Rightarrow> fetch_error + AddressStats option" where
  "fetchAddressStat smartApiBase enc sn upstream addr period =
     (let normalized = normalizeAddress addr in
      case enc normalized of
        None \<Rightarrow> Inl URIError
      | Some encoded \<Rightarrow>
          (case requestJson 2 (upstream (addrStatUrl smartApiBase encoded period)) of
             Inl err \<Rightarrow> Inr None
           | Inr payload \<Rightarrow>
               (case (if truthy (jprop payload ''data'') then jprop payload ''data'' else None) of
                  None \<Rightarrow> Inr None
                | Some data \<Rightarrow>
                    Inr (Some \<lparr>
                      a_winRate =
                        (case jprop data ''winRate'' of Some (JNum n) \<Rightarrow> Some n | _ \<Rightarrow> None),
                      a_openPosCount = finiteField sn data ''openPosCount'',
                      a_closePosCount = finiteField sn data ''closePosCount'',
                      a_avgPosDuration = finiteField sn data ''avgPosDuration'',
                      a_totalPnl = finiteField sn data ''totalPnl'',
                      a_maxDrawdown = finiteField sn data ''maxDrawdown'' \<rparr>))))"

subsection \<open>parseHistoryPoints and fetchPortfolioSeries\<close>

record HistoryPoint =
  hp_ts :: jsnum
  hp_value :: jsnum

record PortfolioWindowSeries =
  pw_window :: string
  pw_pnlHistory :: "HistoryPoint list"
  pw_equityHistory :: "HistoryPoint list"

text \<open>The loop of \<open>parseHistoryPoints\<close> over the items, with \<open>out\<close> as accumulator.\<close>

fun parseLoop :: "(string \<Rightarrow> jsnum) \<Rightarrow> json list \<Rightarrow> HistoryPoint list \<Rightarrow> HistoryPoint list" where
  "parseLoop sn [] out = out"
| "parseLoop sn (item # items) out =
     (case item of
        JArr vs \<Rightarrow>
          if length vs < 2 then parseLoop sn items out
          else
            let ts = toNumber sn (vs ! 0);
                v = toNumber sn (vs ! 1)
            in if \<not> isFinite ts then parseLoop sn items out
               else parseLoop sn items
                      (out @ [\<lparr> hp_ts = ts, hp_value = (if isFinite v then v else Fin 0) \<rparr>])
      | _ \<Rightarrow> parseLoop sn items out)"

definition parseHistoryPoints :: "(string \<Rightarrow> jsnum) \<Rightarrow> json option \<Rightarrow> HistoryPoint list" where
  "parseHistoryPoints sn lst =
     (case lst of Some (JArr items) \<Rightarrow> parseLoop sn items [] | _ \<Rightarrow> [])"

text \<open>
  \<open>String(row[0] ?? '')\<close>: the conversion of a value that is not a string is a
  parameter \<open>str\<close> of the model.
\<close>

definition windowNameOf :: "(json \<Rightarrow> string) \<Rightarrow> json \<Rightarrow> string" where
  "windowNameOf str v = (case v of JNull \<Rightarrow> [] | JStr s \<Rightarrow> s | _ \<Rightarrow> str v)"

definition rowSeries ::
  "(json \<Rightarrow> string) \<Rightarrow> (string \<Rightarrow> jsnum) \<Rightarrow> json \<Rightarrow> PortfolioWindowSeries option" where
  "rowSeries str sn row =
     (case row of
        JArr vs \<Rightarrow>
          if length vs < 2 then None
          else
            let windowName = windowNameOf str (vs ! 0);
                data = (if truthy (Some (vs ! 1)) then vs ! 1 else JObj []);
                pnlHistory = parseHistoryPoints sn (jprop data ''pnlHistory'');
                equityHistory = parseHistoryPoints sn (jprop data ''accountValueHistory'')
            in if pnlHistory = [] \<and> equityHistory = [] then None
               else Some \<lparr> pw_window = windowName, pw_pnlHistory = pnlHistory,
                           pw_equityHistory = equityHistory \<rparr>
      | _ \<Rightarrow> None)"

definition fetchPortfolioSeries ::
  "(json \<Rightarrow> string) \<Rightarrow> (string \<Rightarrow> jsnum) \<Rightarrow> (nat \<Rightarrow> fetch_error + json)
     \<Rightarrow> PortfolioWindowSeries list option" where
  "fetchPortfolioSeries str sn outcome =
     (case requestJson 1 outcome of
        Inl err \<Rightarrow> None
      | Inr payload \<Rightarrow>
          let rows = (case payload of
                        JArr rs \<Rightarrow> rs
                      | _ \<Rightarrow> (case jprop payload ''value'' of Some (JArr rs) \<Rightarrow> rs | _ \<Rightarrow> []))
          in Some (List.map_filter (rowSeries str sn) rows))"


section \<open>Persistence of the PnL points\<close>

record MergedSample =
  ms_ts :: jsnum
  ms_pnl :: "jsnum option"
  ms_equity :: "jsnum option"

text \<open>
  The \<open>Map\<close> of \<open>mergeHistories\<close>, as the list of its entries in insertion order:
  setting a key that is present replaces its value in place, a new key goes to the end.
\<close>

fun mapSet :: "('k \<times> 'v) list \<Rightarrow> 'k \<Rightarrow> 'v \<Rightarrow> ('k \<times> 'v) list" where
  "mapSet [] k v = [(k, v)]"
| "mapSet ((k', v') # m) k v = (if k' = k then (k, v) # m else (k', v') # mapSet m k v)"

definition setPnl ::
  "(jsnum \<times> jsnum option \<times> jsnum option) list \<Rightarrow> HistoryPoint
     \<Rightarrow> (jsnum \<times> jsnum option \<times> jsnum option) list" where
  "setPnl m point =
     (let existing = (case map_of m (hp_ts point) of None \<Rightarrow> (None, None) | Some e \<Rightarrow> e)
      in mapSet m (hp_ts point) (Some (hp_value point), snd existing))"

definition setEquity ::
  "(jsnum \<times> jsnum option \<times> jsnum option) list \<Rightarrow> HistoryPoint
     \<Rightarrow> (jsnum \<times> jsnum option \<times> jsnum option) list" where
  "setEquity m point =
     (let existing = (case map_of m (hp_ts point) of None \<Rightarrow> (None, None) | Some e \<Rightarrow> e)
      in mapSet m (hp_ts point) (fst existing, Some (hp_value point)))"

definition mergeHistories :: "PortfolioWindowSeries \<Rightarrow> MergedSample list" where
  "mergeHistories series =
     (let m1 = foldl setPnl [] (pw_pnlHistory series);
          m2 = foldl setEquity m1 (pw_equityHistory series)
      in sort_key (\<lambda>s. num_val (ms_ts s))
           (map (\<lambda>(ts, values). \<lparr> ms_ts = ts, ms_pnl = fst values, ms_equity = snd values \<rparr>) m2))"

text \<open>
  \<open>new Date(t)\<close>: the time value of the date in milliseconds, \<open>None\<close> for an invalid
  date. A finite \<open>t\<close> within 8.64e15 is truncated towards zero.
\<close>

definition newDate :: "jsnum \<Rightarrow> int option" where
  "newDate t =
     (case t of
        Fin r \<Rightarrow> if \<bar>r\<bar> \<le> 8640000000000000 then Some (if 0 \<le> r then \<lfloor>r\<rfloor> else \<lceil>r\<rceil>) else None
      | _ \<Rightarrow> None)"

record PnlRow =
  pp_address :: string
  pp_source :: string
  pp_window :: string
  pp_ts :: int
  pp_pnlValue :: "jsnum option"
  pp_equityValue :: "jsnum option"

definition WINDOW_PERIOD_MAP :: "string \<Rightarrow> nat option" where
  "WINDOW_PERIOD_MAP = [''day'' \<mapsto> 1, ''week'' \<mapsto> 7, ''month'' \<mapsto> 30]"

text \<open>\<open>Number(point?.timestamp)\<close> and \<open>Number(point?.value)\<close> of a point of \<open>meta.pnlList\<close>.\<close>

fun pointTimestamp :: "PnlPoint \<Rightarrow> jsnum" where
  "pointTimestamp (PtObj t value pnl) = NumberOpt t"
| "pointTimestamp pt = NaN"

fun pointPnlValue :: "(string \<Rightarrow> jsnum) \<Rightarrow> PnlPoint \<Rightarrow> jsnum" where
  "pointPnlValue sn (PtObj t (Some (NumV n)) pnl) = n"
| "pointPnlValue sn (PtObj t (Some (StrV s)) pnl) = sn s"
| "pointPnlValue sn pt = NaN"

text \<open>
  The body of the first loop: the row pushed for one point of a tracked entry; \<open>None\<close>
  when the loop continues without a row.
\<close>

definition hyperbotRow ::
  "(string \<Rightarrow> jsnum) \<Rightarrow> nat \<Rightarrow> RankedEntry \<Rightarrow> PnlPoint \<Rightarrow> PnlRow option" where
  "hyperbotRow sn period entry point =
     (let tsValue = pointTimestamp point;
          pnlValue = pointPnlValue sn point
      in if \<not> isFinite tsValue then None
         else (case newDate tsValue of
                 None \<Rightarrow> None
               | Some date \<Rightarrow>
                   Some \<lparr> pp_address = toLowerCase (address entry),
                          pp_source = ''hyperbot'',
                          pp_window = ''period_'' @ showNat period,
                          pp_ts = date,
                          pp_pnlValue = (if isFinite pnlValue then Some pnlValue else None),
                          pp_equityValue = None \<rparr>))"

definition hyperbotRows :: "(string \<Rightarrow> jsnum) \<Rightarrow> nat \<Rightarrow> RankedEntry \<Rightarrow> PnlRow list" where
  "hyperbotRows sn period entry =
     List.map_filter (hyperbotRow sn period entry)
       (nullish (r_pnlList (m_entry (meta entry))) [])"

text \<open>The body of the second loop, for one sample of one series of one address.\<close>

definition hyperliquidRow :: "string \<Rightarrow> PortfolioWindowSeries \<Rightarrow> MergedSample \<Rightarrow> PnlRow option" where
  "hyperliquidRow addr series sample =
     (case newDate (ms_ts sample) of
        None \<Rightarrow> None
      | Some tsDate \<Rightarrow>
          Some \<lparr> pp_address = addr, pp_source = ''hyperliquid'',
                 pp_window = pw_window series, pp_ts = tsDate,
                 pp_pnlValue = ms_pnl sample, pp_equityValue = ms_equity sample \<rparr>)"

definition hyperliquidRows :: "nat \<Rightarrow> string \<Rightarrow> PortfolioWindowSeries \<Rightarrow> PnlRow list" where
  "hyperliquidRows period addr series =
     (if WINDOW_PERIOD_MAP (pw_window series) \<noteq> Some period then []
      else List.map_filter (hyperliquidRow addr series) (mergeHistories series))"

text \<open>\<open>points\<close>, in the order of the two loops; the series map is the list of its entries.\<close>

definition pnlPoints ::
  "(string \<Rightarrow> jsnum) \<Rightarrow> nat \<Rightarrow> RankedEntry list \<Rightarrow> (string \<times> PortfolioWindowSeries list) list
     \<Rightarrow> PnlRow list" where
  "pnlPoints sn period tracked hyperliquidSeries =
     concat (map (hyperbotRows sn period) tracked) @
     concat (map (\<lambda>(addr, seriesList). concat (map (hyperliquidRows period addr) seriesList))
               hyperliquidSeries)"

text \<open>\<open>points.slice(i, i + chunkSize)\<close> for \<open>i = 0, chunkSize, ...\<close>.\<close>

function chunksOf :: "nat \<Rightarrow> 'a list \<Rightarrow> 'a list list" where
  "chunksOf chunkSize xs =
     (if xs = [] \<or> chunkSize = 0 then []
      else take chunkSize xs # chunksOf chunkSize (drop chunkSize xs))"
  by pat_completeness auto
termination
  by (relation "measure (\<lambda>(chunkSize, xs). length xs)") auto

text \<open>
  \<open>insertPnlPointsInTransaction\<close>: the result is the list of the INSERT statements, each
  the list of the rows it inserts.
\<close>

definition insertPnlPointsInTransaction ::
  "(string \<Rightarrow> jsnum) \<Rightarrow> nat \<Rightarrow> RankedEntry list \<Rightarrow> (string \<times> PortfolioWindowSeries list) list
     \<Rightarrow> PnlRow list list" where
  "insertPnlPointsInTransaction sn period tracked hyperliquidSeries =
     chunksOf 400 (pnlPoints sn period tracked hyperliquidSeries)"

text \<open>The key of a row without its timestamp; \<open>period\<close> is the same for all rows.\<close>

definition rowKey :: "PnlRow \<Rightarrow> string \<times> string \<times> string" where
  "rowKey row = (pp_address row, pp_source row, pp_window row)"

definition rowId :: "PnlRow \<Rightarrow> (string \<times> string \<times> string) \<times> int" where
  "rowId row = (rowKey row, pp_ts row)"

text \<open>A timestamp that is a whole number of milliseconds.\<close>

fun isWhole :: "jsnum \<Rightarrow> bool" where
  "isWhole (Fin r) = (r = of_int \<lfloor>r\<rfloor>)"
| "isWhole PInf = False"
| "isWhole NInf = False"
| "isWhole NaN = False"


section \<open>Example inputs\<close>

text \<open>A raw entry that has an address and nothing else, and enrichment statistics.\<close>

definition rawOf :: "string \<Rightarrow> LeaderboardRawEntry" where
  "rawOf a = \<lparr> r_address = a, r_winRate = None, r_executedOrders = None, r_realizedPnl = None,
     r_remark = None, r_labels = None, r_pnlList = None, r_accountValue = None,
     r_startingEquity = None, r_maxDrawdown = None, r_numWins = None, r_numLosses = None,
     r_stats = None \<rparr>"

definition statsOf :: "jsnum option \<Rightarrow> jsnum option \<Rightarrow> AddressStats" where
  "statsOf w mdd = \<lparr> a_winRate = w, a_openPosCount = None, a_closePosCount = None,
     a_avgPosDuration = None, a_totalPnl = None, a_maxDrawdown = mdd \<rparr>"

text \<open>The entry that phase 1 returns for the single raw entry \<open>rawOf ''0xa''\<close>.\<close>

definition exEntry :: RankedEntry where
  "exEntry = hd (scoreEntries 1 (\<lambda>s. NaN) DEFAULT_SCORING_PARAMS (Fin 200) [rawOf ''0xa''])"

text \<open>
  A trader with 300 executed orders, one whose statistics report a drawdown of 90%, one
  with a perfect record over 50 orders, and one with 100 orders of which half were won.
\<close>

definition exScalper :: LeaderboardRawEntry where
  "exScalper = (rawOf ''0xc'')\<lparr> r_executedOrders := Some (Fin 300) \<rparr>"



definition exModerate :: LeaderboardRawEntry where
  "exModerate =
     (rawOf ''0xa'')\<lparr> r_winRate := Some (Fin (1 / 2)), r_executedOrders := Some (Fin 100) \<rparr>"

text \<open>
  A raw entry whose PnL list has two points, and the list \<open>tracked\<close> that a refresh of
  that single entry hands to persistence; a portfolio series for the month window.
\<close>

definition exPnlRaw :: "jsnum \<Rightarrow> jsnum \<Rightarrow> LeaderboardRawEntry" where
  "exPnlRaw t1 t2 = (rawOf ''0xa'')\<lparr> r_pnlList :=
     Some [PtObj (Some t1) (Some (NumV (Fin 5))) None,
           PtObj (Some t2) (Some (NumV (Fin 6))) None] \<rparr>"

definition exTracked :: "jsnum \<Rightarrow> jsnum \<Rightarrow> RankedEntry list" where
  "exTracked t1 t2 =
     trackedOf \<lparr> o_topN = 1000, o_selectCount = 1, o_enrichCount = 1 \<rparr>
       (refreshPeriod \<lparr> o_topN = 1000, o_selectCount = 1, o_enrichCount = 1 \<rparr> (\<lambda>s. NaN)
          DEFAULT_SCORING_PARAMS (Fin 200) [exPnlRaw t1 t2] (\<lambda>a. None))"

definition exSeries :: PortfolioWindowSeries where
  "exSeries = \<lparr> pw_window = ''month'',
                 pw_pnlHistory = [\<lparr> hp_ts = Fin 1, hp_value = Fin 5 \<rparr>],
                 pw_equityHistory = [\<lparr> hp_ts = Fin 1, hp_value = Fin 7 \<rparr>,
                                     \<lparr> hp_ts = Fin 2, hp_value = Fin 8 \<rparr>] \<rparr>"

text \<open>Options with \<open>selectCount = 1\<close>, and statistics that report a drawdown of 90% for
  the address \<open>0xa\<close> and nothing for any other address.\<close>

definition exOpts :: LeaderboardOptions where
  "exOpts = \<lparr> o_topN = 1000, o_selectCount = 1, o_enrichCount = 1 \<rparr>"

definition exStatsMap :: "string \<Rightarrow> AddressStats option" where
  "exStatsMap a = (if a = ''0xa'' then Some (statsOf None (Some (Fin (9 / 10)))) else None)"


text \<open>
  The parse of one item, stated by cases on the item rather than as the loop does it: an
  item that is an array of at least two elements whose first one converts to a finite
  number gives a point with that timestamp and with the converted second element, or 0
  when that is not finite; any other item gives no point.
\<close>

fun specPoint :: "(string \<Rightarrow> jsnum) \<Rightarrow> json \<Rightarrow> HistoryPoint option" where
  "specPoint sn (JArr (t # v # rest)) =
     (if isFinite (toNumber sn t)
      then Some \<lparr> hp_ts = toNumber sn t,
                  hp_value = (if isFinite (toNumber sn v) then toNumber sn v else Fin 0) \<rparr>
      else None)"
| "specPoint sn item = None"


text \<open>A body of the statistics endpoint whose \<open>winRate\<close> is the literal \<open>1e999\<close>.\<close>

definition exStatPayload :: json where
  "exStatPayload = JObj [(''data'', JObj [(''winRate'', JNum PInf), (''maxDrawdown'', JNum (Fin (1 / 2)))])]"


section \<open>Properties\<close>

subsection \<open>Evaluation of the examples\<close>

lemmas score_defs = scoreEntry_def computePerformanceScore_def computeAdjustedWinRate_def
  computeNormalizedPnl_def computeTradeFreqScore_def computeSmoothPnlScore_def extractValues_def
  zeroSmooth_def createZeroResult_def createFilteredResult_def zeroComponents_def
  invalidCount_def apiMaxDrawdown_def nullish_def clamp_def jgt_def jle_def jge_def jsub_def
  normalizeAddress_def toLowerCase_def toLowerCaseChar_def DEFAULT_SCORING_PARAMS_def
  rawOf_def Let_def List.map_filter_def

lemmas phase1_defs = scoreEntries_def baseEntries_def survivors_def keepWinRate_def
  sortByScore_def rankAndWeigh_def totalScoreOf_def num_or_def ScoredEntry.defs enumerate_eq_zip

lemmas phase2_defs = refreshPeriod_def enrichCountOf_def applyAddressStats_def
  applyStatsToEntry_def finiteOr_def NumberOpt_def keepEnriched_def recalcWeights_def

lemma exEntry_eval:
  "score exEntry = Fin (15 / 100) \<and> winRate exEntry = Fin 0 \<and>
   statMaxDrawdown exEntry = Some (Fin 0) \<and> rank exEntry = 1 \<and> weight exEntry = Fin 1"
  by (simp add: exEntry_def phase1_defs score_defs)

subsection \<open>Phase 1: every score is finite, the output is the sorted list with ranks\<close>

lemma computePerformanceScore_finite:
  "isFinite (sr_score (computePerformanceScore pf stats params))"
  by (simp add: computePerformanceScore_def createZeroResult_def createFilteredResult_def Let_def)

lemma scoreEntry_finite: "isFinite (score (scoreEntry pf params hardLimit entry))"
  by (simp add: scoreEntry_def Let_def computePerformanceScore_finite)

lemma baseEntries_map:
  "baseEntries pf params hardLimit entries = map (scoreEntry pf params hardLimit) entries"
  by (simp add: baseEntries_def scoreEntry_finite)

lemma baseEntries_score_finite:
  "e \<in> set (baseEntries pf params hardLimit entries) \<Longrightarrow> isFinite (score e)"
  by (auto simp: baseEntries_map scoreEntry_finite)

lemma map_enumerate_indep:
  assumes "\<And>i x. G (i, x) = h x"
  shows "map G (enumerate n xs) = map h xs"
  using assms by (induction xs arbitrary: n) auto


lemma truncate_rankAndWeigh:
  "map ScoredEntry.truncate (rankAndWeigh k xs) = xs"
proof -
  have "map (ScoredEntry.truncate \<circ> F) (enumerate 0 xs) = map (\<lambda>x. x) xs"
    if "\<And>i x. ScoredEntry.truncate (F (i, x)) = x" for F :: "nat \<times> ScoredEntry \<Rightarrow> RankedEntry"
    by (rule map_enumerate_indep) (simp add: that)
  then show ?thesis
    by (simp add: rankAndWeigh_def Let_def ScoredEntry.defs)
qed

lemma length_rankAndWeigh: "length (rankAndWeigh k xs) = length xs"
  by (simp add: rankAndWeigh_def Let_def)


lemma filtered_truncate: "filtered (ScoredEntry.truncate e) = filtered e"
  by (simp add: ScoredEntry.defs)


lemma set_sortByScore: "set (sortByScore xs) = set xs"
  by (simp add: sortByScore_def)



text \<open>The list that phase 1 sorts: the survivors, or all mapped entries if there is none.\<close>

lemma scoreEntries_truncate:
  "map ScoredEntry.truncate (scoreEntries k pf params hardLimit entries) =
     sortByScore (if survivors (baseEntries pf params hardLimit entries) = []
                  then baseEntries pf params hardLimit entries
                  else survivors (baseEntries pf params hardLimit entries))"
  by (simp add: scoreEntries_def Let_def truncate_rankAndWeigh)

lemma survivors_not_filtered: "e \<in> set (survivors base) \<Longrightarrow> \<not> filtered e"
  by (simp add: survivors_def)

lemma scoreEntries_not_filtered:
  assumes "survivors (baseEntries pf params hardLimit entries) \<noteq> []"
    and "e \<in> set (scoreEntries k pf params hardLimit entries)"
  shows "\<not> filtered e"
proof -
  have "ScoredEntry.truncate e \<in> set (map ScoredEntry.truncate (scoreEntries k pf params hardLimit entries))"
    using assms(2) by simp
  then have "ScoredEntry.truncate e \<in> set (survivors (baseEntries pf params hardLimit entries))"
    using assms(1) by (simp add: scoreEntries_truncate set_sortByScore)
  then show ?thesis
    using survivors_not_filtered filtered_truncate by metis
qed

lemma nth_rankAndWeigh:
  "i < length xs \<Longrightarrow>
   weight (rankAndWeigh k xs ! i) =
     (if i < k then jdiv (Math_max (score (xs ! i)) (Fin 0)) (totalScoreOf k xs) else Fin 0)"
  by (simp add: rankAndWeigh_def Let_def nth_enumerate_eq ScoredEntry.defs)

subsection \<open>Phase 1: the weights\<close>

lemma isFinite_Fin: "isFinite v \<Longrightarrow> v = Fin (num_val v)"
  by (cases v) auto

lemma max_zero_Fin: "Math_max (Fin s) (Fin 0) = Fin (max s 0)"
  by (simp add: max_def)

lemma foldl_total:
  assumes "\<forall>y\<in>set ys. isFinite (score y)"
  shows "foldl (\<lambda>sum e. jadd sum (Math_max (score e) (Fin 0))) (Fin a) ys =
         Fin (a + (\<Sum>y\<leftarrow>ys. max (num_val (score y)) 0))"
  using assms
proof (induction ys arbitrary: a)
  case Nil
  then show ?case by simp
next
  case (Cons y ys)
  then have "score y = Fin (num_val (score y))" by (simp add: isFinite_Fin)
  then have "jadd (Fin a) (Math_max (score y) (Fin 0)) = Fin (a + max (num_val (score y)) 0)"
    by (metis jadd.simps(1) max_zero_Fin)
  with Cons show ?case by (simp add: add.assoc)
qed

text \<open>The sum of the positive parts of the first \<open>k\<close> scores.\<close>

lemma totalScoreOf_Fin:
  assumes "\<forall>y\<in>set xs. isFinite (score y)"
  shows "totalScoreOf k xs =
         Fin (if (\<Sum>y\<leftarrow>take k xs. max (num_val (score y)) 0) = 0 then 1
              else (\<Sum>y\<leftarrow>take k xs. max (num_val (score y)) 0))"
proof -
  have "\<forall>y\<in>set (take k xs). isFinite (score y)"
    using assms in_set_takeD by fast
  from foldl_total [OF this, of 0] show ?thesis
    by (simp add: totalScoreOf_def num_or_def)
qed

lemma sum_pos_parts_nonneg: "0 \<le> (\<Sum>y\<leftarrow>ys. max (f y) (0::real))"
  by (induction ys) auto

lemma sum_pos_parts_pos:
  "0 < (\<Sum>y\<leftarrow>ys. max (f y) (0::real)) \<longleftrightarrow> (\<exists>y\<in>set ys. 0 < f y)"
proof (induction ys)
  case Nil
  then show ?case by simp
next
  case (Cons y ys)
  have n: "0 \<le> (\<Sum>y\<leftarrow>ys. max (f y) 0)" by (rule sum_pos_parts_nonneg)
  show ?case
  proof (cases "0 < f y")
    case True
    then have "0 < max (f y) 0 + (\<Sum>y\<leftarrow>ys. max (f y) 0)" using n by (simp add: max_def)
    with True show ?thesis by auto
  next
    case False
    then have "max (f y) 0 = 0" by (simp add: max_def)
    with False Cons show ?thesis by auto
  qed
qed

lemma member_le_sum_pos_parts:
  "y \<in> set ys \<Longrightarrow> max (f y) 0 \<le> (\<Sum>y\<leftarrow>ys. max (f y) (0::real))"
proof (induction ys)
  case Nil
  then show ?case by simp
next
  case (Cons z ys)
  have n: "0 \<le> (\<Sum>y\<leftarrow>ys. max (f y) 0)" by (rule sum_pos_parts_nonneg)
  from Cons show ?case
  proof (cases "y = z")
    case True
    with n show ?thesis by simp
  next
    case False
    with Cons have "max (f y) 0 \<le> (\<Sum>y\<leftarrow>ys. max (f y) 0)" by simp
    moreover have "0 \<le> max (f z) 0" by simp
    ultimately show ?thesis by (simp del: max.bounded_iff) 
  qed
qed

lemma nth_rankAndWeigh_rank:
  "i < length xs \<Longrightarrow> rank (rankAndWeigh k xs ! i) = Suc i \<and>
     score (rankAndWeigh k xs ! i) = score (xs ! i)"
  by (simp add: rankAndWeigh_def Let_def nth_enumerate_eq ScoredEntry.defs)

text \<open>The weight at position \<open>i\<close>, as a real number, when all scores are finite.\<close>

lemma weight_value:
  assumes fin: "\<forall>y\<in>set xs. isFinite (score y)" and i: "i < length xs"
  shows "weight (rankAndWeigh k xs ! i) =
         Fin (if i < k
              then max (num_val (score (xs ! i))) 0 /
                   (if (\<Sum>y\<leftarrow>take k xs. max (num_val (score y)) 0) = 0 then 1
                    else (\<Sum>y\<leftarrow>take k xs. max (num_val (score y)) 0))
              else 0)"
proof -
  have s: "score (xs ! i) = Fin (num_val (score (xs ! i)))"
    using fin i by (simp add: isFinite_Fin)
  have "Math_max (score (xs ! i)) (Fin 0) = Fin (max (num_val (score (xs ! i))) 0)"
    by (subst s) (rule max_zero_Fin)
  then show ?thesis
    using nth_rankAndWeigh [OF i, of k] totalScoreOf_Fin [OF fin, of k] by simp
qed

lemma weight_bounds:
  assumes fin: "\<forall>y\<in>set xs. isFinite (score y)" and e: "e \<in> set (rankAndWeigh k xs)"
  shows "(k < rank e \<longrightarrow> weight e = Fin 0) \<and>
         (\<exists>w. weight e = Fin w \<and> 0 \<le> w \<and> w \<le> 1)"
proof -
  from e obtain i where i: "i < length xs" "e = rankAndWeigh k xs ! i"
    by (auto simp: in_set_conv_nth length_rankAndWeigh)
  define T where "T = (\<Sum>y\<leftarrow>take k xs. max (num_val (score y)) 0)"
  define m where "m = max (num_val (score (xs ! i))) 0"
  have w: "weight e = Fin (if i < k then m / (if T = 0 then 1 else T) else 0)"
    unfolding i(2) T_def m_def by (rule weight_value [OF fin i(1)])
  have r: "rank e = Suc i"
    using nth_rankAndWeigh_rank [OF i(1), of k] i(2) by simp
  have T0: "0 \<le> T" unfolding T_def by (rule sum_pos_parts_nonneg)
  have m0: "0 \<le> m" unfolding m_def by simp
  have mT: "m \<le> T" if "i < k"
  proof -
    have "xs ! i \<in> set (take k xs)"
      using that i(1) by (metis in_set_conv_nth length_take min_less_iff_conj nth_take)
    then show ?thesis
      unfolding m_def T_def by (rule member_le_sum_pos_parts)
  qed
  have b: "0 \<le> m / (if T = 0 then 1 else T) \<and> m / (if T = 0 then 1 else T) \<le> 1" if "i < k"
  proof (cases "T = 0")
    case True
    with mT [OF that] m0 show ?thesis by simp
  next
    case False
    with T0 have "0 < T" by simp
    with mT [OF that] m0 False show ?thesis by simp
  qed
  show ?thesis
  proof (cases "i < k")
    case True
    with w b r show ?thesis by auto
  next
    case False
    with w r show ?thesis by auto
  qed
qed

text \<open>The entries with a rank up to \<open>k\<close> are the first \<open>k\<close> entries.\<close>

lemma filter_rank_le:
  "filter (\<lambda>e. rank e \<le> k) (rankAndWeigh k xs) = take k (rankAndWeigh k xs)"
proof -
  have "filter (\<lambda>e. rank e \<le> k) ys = take k ys" if "map rank ys = map Suc [0..<length ys]"
    for ys :: "RankedEntry list"
  proof -
    have "filter (\<lambda>e. rank e \<le> k) ys = take (k - n) ys"
      if "map rank ys = map Suc [n..<n + length ys]" for n
      using that
    proof (induction ys arbitrary: n)
      case Nil
      then show ?case by simp
    next
      case (Cons y ys)
      from Cons.prems have y: "rank y = Suc n" and r: "map rank ys = map Suc [Suc n..<Suc n + length ys]"
        by (simp_all add: upt_rec)
      show ?case
      proof (cases "n < k")
        case True
        then have "take (k - n) (y # ys) = y # take (k - Suc n) ys"
          by (simp add: Suc_diff_Suc [symmetric])
        with True y Cons.IH [OF r] show ?thesis by simp
      next
        case False
        with y Cons.IH [OF r] show ?thesis by simp
      qed
    qed
    from this [of 0] that show ?thesis by simp
  qed
  moreover have "map rank (rankAndWeigh k xs) = map Suc [0..<length (rankAndWeigh k xs)]"
  proof (rule nth_equalityI)
    show "length (map rank (rankAndWeigh k xs)) = length (map Suc [0..<length (rankAndWeigh k xs)])"
      by simp
  next
    fix i assume "i < length (map rank (rankAndWeigh k xs))"
    then have "i < length xs" by (simp add: length_rankAndWeigh)
    then show "map rank (rankAndWeigh k xs) ! i = map Suc [0..<length (rankAndWeigh k xs)] ! i"
      using nth_rankAndWeigh_rank [of i xs k] by (simp add: length_rankAndWeigh)
  qed
  ultimately show ?thesis by blast
qed

lemma sum_list_divide_const:
  "(\<Sum>x\<leftarrow>xs. f x / (c::real)) = (\<Sum>x\<leftarrow>xs. f x) / c"
  by (induction xs) (simp_all add: add_divide_distrib)

lemma weight_sum:
  assumes fin: "\<forall>y\<in>set xs. isFinite (score y)"
  shows "(\<Sum>e\<leftarrow>filter (\<lambda>e. rank e \<le> k) (rankAndWeigh k xs). num_val (weight e)) =
         (if \<exists>e\<in>set (rankAndWeigh k xs). rank e \<le> k \<and> jgt (score e) (Fin 0) then 1 else 0)"
proof -
  define out where "out = rankAndWeigh k xs"
  define T where "T = (\<Sum>y\<leftarrow>take k xs. max (num_val (score y)) 0)"
  define T' where "T' = (if T = 0 then 1 else T)"
  have len: "length out = length xs" by (simp add: out_def length_rankAndWeigh)
  have w: "map (\<lambda>e. num_val (weight e)) (take k out) =
           map (\<lambda>x. max (num_val (score x)) 0 / T') (take k xs)"
  proof (rule nth_equalityI)
    show "length (map (\<lambda>e. num_val (weight e)) (take k out)) =
          length (map (\<lambda>x. max (num_val (score x)) 0 / T') (take k xs))"
      by (simp add: len)
  next
    fix i assume "i < length (map (\<lambda>e. num_val (weight e)) (take k out))"
    then have i: "i < k" "i < length xs" by (simp_all add: len)
    have "weight (out ! i) = Fin (max (num_val (score (xs ! i))) 0 / T')"
      using weight_value [OF fin i(2), of k] i(1) unfolding out_def T'_def T_def by simp
    then show "map (\<lambda>e. num_val (weight e)) (take k out) ! i =
               map (\<lambda>x. max (num_val (score x)) 0 / T') (take k xs) ! i"
      using i len by simp
  qed
  have "(\<Sum>e\<leftarrow>filter (\<lambda>e. rank e \<le> k) out. num_val (weight e)) =
        (\<Sum>e\<leftarrow>take k out. num_val (weight e))"
    unfolding out_def filter_rank_le by (rule refl)
  also have "\<dots> = (\<Sum>x\<leftarrow>take k xs. max (num_val (score x)) 0 / T')"
    using w by simp
  also have "\<dots> = T / T'"
    unfolding T_def by (rule sum_list_divide_const)
  finally have s: "(\<Sum>e\<leftarrow>filter (\<lambda>e. rank e \<le> k) out. num_val (weight e)) = T / T'" .
  have ex: "(\<exists>e\<in>set out. rank e \<le> k \<and> jgt (score e) (Fin 0)) \<longleftrightarrow>
            (\<exists>x\<in>set (take k xs). 0 < num_val (score x))"
  proof
    assume "\<exists>e\<in>set out. rank e \<le> k \<and> jgt (score e) (Fin 0)"
    then obtain i where i: "i < length xs" "rank (out ! i) \<le> k" "jgt (score (out ! i)) (Fin 0)"
      by (auto simp: in_set_conv_nth len)
    have r: "rank (out ! i) = Suc i" "score (out ! i) = score (xs ! i)"
      using nth_rankAndWeigh_rank [OF i(1), of k] unfolding out_def by simp_all
    have f: "score (xs ! i) = Fin (num_val (score (xs ! i)))"
      using fin i(1) by (simp add: isFinite_Fin)
    have "0 < num_val (score (xs ! i))"
      using i(3) unfolding r(2) by (subst (asm) f) (simp add: jgt_def)
    moreover have "xs ! i \<in> set (take k xs)"
      using i(1,2) r(1) by (metis Suc_le_lessD in_set_conv_nth length_take min_less_iff_conj nth_take)
    ultimately show "\<exists>x\<in>set (take k xs). 0 < num_val (score x)" by blast
  next
    assume "\<exists>x\<in>set (take k xs). 0 < num_val (score x)"
    then obtain i where i: "i < k" "i < length xs" "0 < num_val (score (xs ! i))"
      by (auto simp: in_set_conv_nth)
    have r: "rank (out ! i) = Suc i" "score (out ! i) = score (xs ! i)"
      using nth_rankAndWeigh_rank [OF i(2), of k] unfolding out_def by simp_all
    have f: "score (xs ! i) = Fin (num_val (score (xs ! i)))"
      using fin i(2) by (simp add: isFinite_Fin)
    have "jgt (score (out ! i)) (Fin 0)"
      unfolding r(2) by (subst f) (simp add: jgt_def i(3))
    moreover have "out ! i \<in> set out" using i(2) len by simp
    moreover have "rank (out ! i) \<le> k" using r(1) i(1) by simp
    ultimately show "\<exists>e\<in>set out. rank e \<le> k \<and> jgt (score e) (Fin 0)" by blast
  qed
  have pos: "(\<exists>x\<in>set (take k xs). 0 < num_val (score x)) \<longleftrightarrow> 0 < T"
    unfolding T_def by (rule sum_pos_parts_pos [symmetric])
  have T0: "0 \<le> T" unfolding T_def by (rule sum_pos_parts_nonneg)
  have "T / T' = (if 0 < T then 1 else 0)"
    using T0 by (auto simp: T'_def)
  with s ex pos show ?thesis unfolding out_def by simp
qed

text \<open>The output of phase 1 satisfies the three parts of the weight invariant.\<close>

lemma scoreEntries_weights:
  "(\<Sum>e\<leftarrow>filter (\<lambda>e. rank e \<le> k) (scoreEntries k pf params hardLimit entries).
      num_val (weight e)) =
     (if \<exists>e\<in>set (scoreEntries k pf params hardLimit entries).
           rank e \<le> k \<and> jgt (score e) (Fin 0) then 1 else 0) \<and>
   (\<forall>e\<in>set (scoreEntries k pf params hardLimit entries).
      (k < rank e \<longrightarrow> weight e = Fin 0) \<and> (\<exists>w. weight e = Fin w \<and> 0 \<le> w \<and> w \<le> 1))"
proof -
  define xs where "xs = sortByScore
     (if survivors (baseEntries pf params hardLimit entries) = []
      then baseEntries pf params hardLimit entries
      else survivors (baseEntries pf params hardLimit entries))"
  have out: "scoreEntries k pf params hardLimit entries = rankAndWeigh k xs"
    by (simp add: scoreEntries_def Let_def xs_def)
  have "set xs \<subseteq> set (baseEntries pf params hardLimit entries)"
    by (auto simp: xs_def set_sortByScore survivors_def)
  then have fin: "\<forall>y\<in>set xs. isFinite (score y)"
    using baseEntries_score_finite by blast
  show ?thesis
    unfolding out using weight_sum [OF fin, of k] weight_bounds [OF fin, of _ k] by blast
qed

subsection \<open>The hard filters\<close>






subsection \<open>The fallback\<close>





subsection \<open>Phase 2\<close>

lemma filtered_applyStatsToEntry: "filtered (applyStatsToEntry e s) = filtered e"
  by (cases "a_winRate s") (simp_all add: applyStatsToEntry_def Let_def)

lemma filtered_applyAddressStats:
  "e \<in> set (applyAddressStats m xs) \<Longrightarrow> \<exists>x\<in>set xs. filtered e = filtered x"
  by (auto simp: applyAddressStats_def filtered_applyStatsToEntry split: option.splits)

lemma filtered_recalcWeights:
  "map filtered (recalcWeights k xs) = map filtered xs"
proof -
  have "map (filtered \<circ> F) (enumerate 0 xs) = map filtered xs"
    if "\<And>i x. filtered (F (i, x)) = filtered x" for F :: "nat \<times> RankedEntry \<Rightarrow> RankedEntry"
    by (rule map_enumerate_indep) (simp add: that)
  then show ?thesis
    by (simp add: recalcWeights_def Let_def)
qed

lemma refreshPeriod_cases:
  "\<exists>n. let ranked = scoreEntries (o_selectCount opts) pf params hardLimit raw;
           kept = filter (keepEnriched (maxDrawdownLimit params))
                    (applyAddressStats statsMap (take n ranked) @ drop n ranked)
       in refreshPeriod opts pf params hardLimit raw statsMap = ranked \<or>
          refreshPeriod opts pf params hardLimit raw statsMap = kept \<or>
          refreshPeriod opts pf params hardLimit raw statsMap = recalcWeights (o_selectCount opts) kept"
  by (auto simp: refreshPeriod_def Let_def)

lemma refreshPeriod_not_filtered:
  assumes "survivors (baseEntries pf params hardLimit raw) \<noteq> []"
    and "e \<in> set (refreshPeriod opts pf params hardLimit raw statsMap)"
  shows "\<not> filtered e"
proof -
  define ranked where "ranked = scoreEntries (o_selectCount opts) pf params hardLimit raw"
  obtain n where n: "refreshPeriod opts pf params hardLimit raw statsMap = ranked \<or>
      refreshPeriod opts pf params hardLimit raw statsMap =
        filter (keepEnriched (maxDrawdownLimit params))
          (applyAddressStats statsMap (take n ranked) @ drop n ranked) \<or>
      refreshPeriod opts pf params hardLimit raw statsMap =
        recalcWeights (o_selectCount opts)
          (filter (keepEnriched (maxDrawdownLimit params))
             (applyAddressStats statsMap (take n ranked) @ drop n ranked))"
    using refreshPeriod_cases [of opts pf params hardLimit raw statsMap]
    unfolding Let_def ranked_def by blast
  define kept where "kept = filter (keepEnriched (maxDrawdownLimit params))
          (applyAddressStats statsMap (take n ranked) @ drop n ranked)"
  have ranked: "\<not> filtered x" if "x \<in> set ranked" for x
    using assms(1) that scoreEntries_not_filtered unfolding ranked_def by blast
  have kept: "\<not> filtered x" if "x \<in> set kept" for x
  proof -
    from that have "x \<in> set (applyAddressStats statsMap (take n ranked)) \<or> x \<in> set (drop n ranked)"
      unfolding kept_def by auto
    then show ?thesis
    proof
      assume "x \<in> set (applyAddressStats statsMap (take n ranked))"
      then obtain y where "y \<in> set (take n ranked)" "filtered x = filtered y"
        using filtered_applyAddressStats by blast
      then show ?thesis using ranked in_set_takeD by metis
    next
      assume "x \<in> set (drop n ranked)"
      then show ?thesis using ranked in_set_dropD by metis
    qed
  qed
  have recalc: "\<not> filtered x" if "x \<in> set (recalcWeights k kept)" for x k
  proof -
    from that have "filtered x \<in> set (map filtered (recalcWeights k kept))"
      by simp
    then have "filtered x \<in> set (map filtered kept)"
      by (simp only: filtered_recalcWeights)
    then show ?thesis using kept by auto
  qed
  from n assms(2) show ?thesis
    using ranked kept recalc unfolding kept_def by metis
qed


text \<open>
  In the fallback the list handed to persistence holds filtered entries: for the single
  raw entry \<open>exScalper\<close>, which fails the hard limit on trades, phase 1 falls back to the
  mapped list, phase 2 removes nothing (the drawdown of the entry is 0), and the entry
  is persisted with \<open>filtered = true\<close>.
\<close>

theorem refreshPeriod_fallback_counterexample:
  "map filtered (refreshPeriod exOpts (\<lambda>s. NaN) DEFAULT_SCORING_PARAMS (Fin 200) [exScalper]
      (\<lambda>a. None)) = [True] \<and>
   map filterReason (refreshPeriod exOpts (\<lambda>s. NaN) DEFAULT_SCORING_PARAMS (Fin 200) [exScalper]
      (\<lambda>a. None)) = [Some scalping_penalty] \<and>
   map statMaxDrawdown (refreshPeriod exOpts (\<lambda>s. NaN) DEFAULT_SCORING_PARAMS (Fin 200) [exScalper]
      (\<lambda>a. None)) = [Some (Fin 0)]"
  by (simp add: exScalper_def exOpts_def phase2_defs phase1_defs score_defs)

text \<open>
  Claim C3, amended. Whenever an entry survives the drops of phase 1, so that the
  fallback is not taken, no entry handed to persistence after the re-filter of phase 2
  has \<open>filtered = true\<close>.
\<close>

theorem refreshPeriod_no_filtered:
  "survivors (baseEntries pf params hardLimit raw) \<noteq> [] \<Longrightarrow>
   \<forall>e\<in>set (refreshPeriod opts pf params hardLimit raw statsMap). \<not> filtered e"
  using refreshPeriod_not_filtered by blast

lemma survivors_exA:
  "survivors (baseEntries (\<lambda>s. NaN) DEFAULT_SCORING_PARAMS (Fin 200) [rawOf ''0xa'']) \<noteq> []"
  by (simp add: phase1_defs score_defs)

theorem refreshPeriod_no_filtered_witness:
  "survivors (baseEntries (\<lambda>s. NaN) DEFAULT_SCORING_PARAMS (Fin 200) [rawOf ''0xa'']) \<noteq> [] \<and>
   list_all (\<lambda>e. \<not> filtered e)
     (refreshPeriod exOpts (\<lambda>s. NaN) DEFAULT_SCORING_PARAMS (Fin 200) [rawOf ''0xa''] (\<lambda>a. None))"
  using refreshPeriod_no_filtered [OF survivors_exA] survivors_exA
  by (simp add: list_all_iff)

text \<open>
  Claim C2. After phase 2 the ranks of the persisted entries should be \<open>1 .. N\<close>. The
  code keeps the ranks of phase 1: for the raw entries \<open>exModerate\<close> (score 0.25) and
  \<open>rawOf ''0xb''\<close> (score 0.15), with statistics that report a drawdown of 90% for the
  first, phase 2 removes the first entry and the only persisted entry has rank 2.
\<close>

theorem stale_rank_evaluation:
  "map rank (refreshPeriod exOpts (\<lambda>s. NaN) DEFAULT_SCORING_PARAMS (Fin 200)
      [exModerate, rawOf ''0xb''] exStatsMap) = [2]"
  by (simp add: exModerate_def exOpts_def exStatsMap_def statsOf_def phase2_defs phase1_defs score_defs)

text \<open>
  Claim C1. Every entry with a rank above \<open>selectCount\<close> should have weight 0, and the
  weights at the ranks up to \<open>selectCount\<close> should add up to 1 when one of those
  scores is positive. After phase 2 has removed an entry the code recomputes the weights
  by position and keeps the ranks: at the input of C2, with \<open>selectCount = 1\<close>, the
  persisted entry has rank 2 and weight 1, and no weight is left at rank 1. For the
  output of \<open>scoreEntries\<close> itself the invariant holds (lemma \<open>scoreEntries_weights\<close>).
\<close>

theorem stale_rank_weight_evaluation:
  "o_selectCount exOpts = 1 \<and>
   map (\<lambda>e. (address e, rank e, weight e, score e))
     (refreshPeriod exOpts (\<lambda>s. NaN) DEFAULT_SCORING_PARAMS (Fin 200)
        [exModerate, rawOf ''0xb''] exStatsMap) = [(''0xb'', 2, Fin 1, Fin (15 / 100))]"
  by (simp add: exModerate_def exOpts_def exStatsMap_def statsOf_def phase2_defs phase1_defs score_defs)

lemma phase1_two:
  "map (\<lambda>e. (address e, rank e, weight e, score e))
     (scoreEntries 1 (\<lambda>s. NaN) DEFAULT_SCORING_PARAMS (Fin 200) [rawOf ''0xb'', exModerate])
   = [(''0xa'', 1, Fin 1, Fin (25 / 100)), (''0xb'', 2, Fin 0, Fin (15 / 100))]"
  by (simp add: exModerate_def phase1_defs score_defs)

subsection \<open>Enrichment leaves the score alone\<close>

text \<open>
  Claim C9. For every ranked entry and all address statistics, \<open>applyStatsToEntry\<close>
  changes \<open>winRate\<close> only when \<open>stats.winRate\<close> is a finite number (to its clamped
  value), sets each of the five \<open>stat\<close> fields to the statistic when that is a finite
  number and keeps the previous value otherwise, and merges the statistics into \<open>meta\<close>;
  address, rank, score, weight, executedOrders, realizedPnl, efficiency, pnlConsistency,
  remark and labels, and the filter flag and reason, are unchanged.
\<close>

theorem applyStatsToEntry_frame:
  "address (applyStatsToEntry entry stats) = address entry \<and>
   rank (applyStatsToEntry entry stats) = rank entry \<and>
   score (applyStatsToEntry entry stats) = score entry \<and>
   weight (applyStatsToEntry entry stats) = weight entry \<and>
   executedOrders (applyStatsToEntry entry stats) = executedOrders entry \<and>
   realizedPnl (applyStatsToEntry entry stats) = realizedPnl entry \<and>
   efficiency (applyStatsToEntry entry stats) = efficiency entry \<and>
   pnlConsistency (applyStatsToEntry entry stats) = pnlConsistency entry \<and>
   remark (applyStatsToEntry entry stats) = remark entry \<and>
   labels (applyStatsToEntry entry stats) = labels entry \<and>
   filtered (applyStatsToEntry entry stats) = filtered entry \<and>
   filterReason (applyStatsToEntry entry stats) = filterReason entry \<and>
   (winRate (applyStatsToEntry entry stats) \<noteq> winRate entry \<longrightarrow>
      (\<exists>w. a_winRate stats = Some w \<and> isFinite w)) \<and>
   (\<forall>w. a_winRate stats = Some w \<and> isFinite w \<longrightarrow>
      winRate (applyStatsToEntry entry stats) = clamp w (Fin 0) (Fin 1)) \<and>
   statOpenPositions (applyStatsToEntry entry stats) =
     (if isFinite (NumberOpt (a_openPosCount stats)) then Some (NumberOpt (a_openPosCount stats))
      else statOpenPositions entry) \<and>
   statClosedPositions (applyStatsToEntry entry stats) =
     (if isFinite (NumberOpt (a_closePosCount stats)) then Some (NumberOpt (a_closePosCount stats))
      else statClosedPositions entry) \<and>
   statAvgPosDuration (applyStatsToEntry entry stats) =
     (if isFinite (NumberOpt (a_avgPosDuration stats))
      then Some (NumberOpt (a_avgPosDuration stats)) else statAvgPosDuration entry) \<and>
   statTotalPnl (applyStatsToEntry entry stats) =
     (if isFinite (NumberOpt (a_totalPnl stats)) then Some (NumberOpt (a_totalPnl stats))
      else statTotalPnl entry) \<and>
   statMaxDrawdown (applyStatsToEntry entry stats) =
     (if isFinite (NumberOpt (a_maxDrawdown stats)) then Some (NumberOpt (a_maxDrawdown stats))
      else statMaxDrawdown entry) \<and>
   meta (applyStatsToEntry entry stats) = (meta entry)\<lparr> m_stats := Some stats \<rparr>"
  by (cases "a_winRate stats") (simp_all add: applyStatsToEntry_def finiteOr_def Let_def)

theorem applyStatsToEntry_frame_witness:
  "a_winRate (statsOf (Some (Fin (1 / 2))) None) = Some (Fin (1 / 2)) \<and> isFinite (Fin (1 / 2)) \<and>
   winRate (applyStatsToEntry exEntry (statsOf (Some (Fin (1 / 2))) None)) = Fin (1 / 2) \<and>
   score (applyStatsToEntry exEntry (statsOf (Some (Fin (1 / 2))) None)) = Fin (15 / 100) \<and>
   statMaxDrawdown (applyStatsToEntry exEntry (statsOf (Some (Fin (1 / 2))) None)) = Some (Fin 0)"
  using applyStatsToEntry_frame [of exEntry "statsOf (Some (Fin (1 / 2))) None"] exEntry_eval
  by (simp add: statsOf_def clamp_def NumberOpt_def)


subsection \<open>Finiteness of the scoring result\<close>

text \<open>
  Claim C6. Every field of the result of \<open>computePerformanceScore\<close> should be finite.
  The score is (lemma \<open>computePerformanceScore_finite\<close>); the details are not: for a
  realized PnL that is \<open>NaN\<close> the comparison \<open>realizedPnl <= 0\<close> is false, the logarithm
  and the clamp by \<open>Math.min\<close> and \<open>Math.max\<close> give \<open>NaN\<close>, and \<open>normalizedPnl\<close> and
  its weighted component are \<open>NaN\<close> while the score degrades to 0.
\<close>

theorem nan_pnl_evaluation:
  "normalizedPnl (sr_details (computePerformanceScore (\<lambda>s. NaN)
      \<lparr> as_realizedPnl = NaN, as_numTrades = Fin 0, as_numWins = Fin 0, as_numLosses = Fin 0,
        as_pnlList = Some [] \<rparr> DEFAULT_SCORING_PARAMS)) = NaN \<and>
   wc_pnl (weightedComponents (sr_details (computePerformanceScore (\<lambda>s. NaN)
      \<lparr> as_realizedPnl = NaN, as_numTrades = Fin 0, as_numWins = Fin 0, as_numLosses = Fin 0,
        as_pnlList = Some [] \<rparr> DEFAULT_SCORING_PARAMS))) = NaN \<and>
   sr_score (computePerformanceScore (\<lambda>s. NaN)
      \<lparr> as_realizedPnl = NaN, as_numTrades = Fin 0, as_numWins = Fin 0, as_numLosses = Fin 0,
        as_pnlList = Some [] \<rparr> DEFAULT_SCORING_PARAMS) = Fin 0"
  by (simp add: score_defs)

subsection \<open>Parsing a portfolio history\<close>

lemma parseLoop_spec:
  "parseLoop sn items out = out @ List.map_filter (specPoint sn) items"
proof (induction items arbitrary: out)
  case Nil
  then show ?case by (simp add: List.map_filter_simps)
next
  case (Cons item items)
  show ?case
  proof (cases item)
    case (JArr vs)
    then show ?thesis
    proof (cases vs)
      case Nil
      with JArr Cons show ?thesis by (simp add: List.map_filter_simps)
    next
      case (Cons t ws)
      note c1 = this
      show ?thesis
      proof (cases ws)
        case Nil
        with JArr c1 Cons.IH show ?thesis by (simp add: List.map_filter_simps)
      next
        case (Cons v rest)
        with JArr c1 Cons.IH show ?thesis by (simp add: List.map_filter_simps Let_def)
      qed
    qed
  qed (simp_all add: Cons List.map_filter_simps)
qed

lemma specPoint_finite:
  "specPoint sn item = Some p \<Longrightarrow> isFinite (hp_ts p) \<and> isFinite (hp_value p)"
  by (induction sn item rule: specPoint.induct) (auto split: if_splits)

lemma in_map_filterD: "y \<in> set (List.map_filter f xs) \<Longrightarrow> \<exists>x\<in>set xs. f x = Some y"
  by (auto simp: List.map_filter_def)

lemma parseHistoryPoints_finite:
  "p \<in> set (parseHistoryPoints sn lst) \<Longrightarrow> isFinite (hp_ts p) \<and> isFinite (hp_value p)"
  by (auto simp: parseHistoryPoints_def parseLoop_spec
           dest!: in_map_filterD specPoint_finite split: option.splits json.splits)




subsection \<open>Fetching the statistics of an address\<close>

lemma requestJsonLoop_all_fail:
  "(\<forall>k. attempt \<le> k \<and> k \<le> retries \<longrightarrow> isl (outcome k)) \<Longrightarrow> attempt \<le> retries \<Longrightarrow>
   isl (requestJsonLoop retries outcome attempt)"
proof (induction retries outcome attempt rule: requestJsonLoop.induct)
  case (1 retries outcome attempt)
  from "1.prems" have "isl (outcome attempt)" by auto
  then obtain err where err: "outcome attempt = Inl err" by (cases "outcome attempt") auto
  show ?case
  proof (cases "retries < attempt + 1")
    case True
    with err show ?thesis by (subst requestJsonLoop.simps) simp
  next
    case False
    then have "isl (requestJsonLoop retries outcome (attempt + 1))"
      using "1.IH" [OF err] "1.prems" by auto
    with err False show ?thesis by (subst requestJsonLoop.simps) simp
  qed
qed

lemma finiteField_finite: "finiteField sn data k = Some n \<Longrightarrow> isFinite n"
  by (auto simp: finiteField_def split: if_splits)

lemma finiteField_iff:
  "finiteField sn data k = Some n \<longleftrightarrow> isFinite n \<and> NumberJ sn (jprop data k) = n"
  by (auto simp: finiteField_def)

lemma winRate_field_iff:
  "(case v of Some (JNum m) \<Rightarrow> Some m | _ \<Rightarrow> None) = Some n \<longleftrightarrow> v = Some (JNum n)"
  by (cases v; simp split: json.splits)

lemma fetchAddressStat_encoded:
  "enc (normalizeAddress addr) = Some encoded \<Longrightarrow>
   fetchAddressStat base enc sn upstream addr period =
     (case requestJson 2 (upstream (addrStatUrl base encoded period)) of
        Inl err \<Rightarrow> Inr None
      | Inr payload \<Rightarrow>
          (if truthy (jprop payload ''data'')
           then Inr (Some \<lparr>
                  a_winRate = (case jprop (the (jprop payload ''data'')) ''winRate'' of
                                 Some (JNum n) \<Rightarrow> Some n | _ \<Rightarrow> None),
                  a_openPosCount = finiteField sn (the (jprop payload ''data'')) ''openPosCount'',
                  a_closePosCount = finiteField sn (the (jprop payload ''data'')) ''closePosCount'',
                  a_avgPosDuration = finiteField sn (the (jprop payload ''data'')) ''avgPosDuration'',
                  a_totalPnl = finiteField sn (the (jprop payload ''data'')) ''totalPnl'',
                  a_maxDrawdown = finiteField sn (the (jprop payload ''data'')) ''maxDrawdown'' \<rparr>)
           else Inr None))"
  by (cases "requestJson 2 (upstream (addrStatUrl base encoded period))")
     (auto simp: fetchAddressStat_def Let_def split: option.splits)

lemmas addrstat_defs = fetchAddressStat_def addrStatUrl_def requestJson_def requestJsonLoop.simps
  exStatPayload_def finiteField_def NumberJ_def normalizeAddress_def toLowerCase_def
  toLowerCaseChar_def Let_def

text \<open>
  \<open>winRate\<close> is set whenever the raw value is a number, finite or not: a body whose
  \<open>winRate\<close> decoded to \<open>Infinity\<close> gives statistics with that \<open>winRate\<close>.
\<close>

theorem fetchAddressStat_counterexample:
  "fetchAddressStat ''https://api/'' (\<lambda>s. Some s) (\<lambda>s. NaN) (\<lambda>url k. Inr exStatPayload)
     ''0xa'' 30 =
     Inr (Some \<lparr> a_winRate = Some PInf, a_openPosCount = None, a_closePosCount = None,
                 a_avgPosDuration = None, a_totalPnl = None,
                 a_maxDrawdown = Some (Fin (1 / 2)) \<rparr>) \<and>
   isFinite PInf = False"
  by (simp add: addrstat_defs)

text \<open>
  Claim C10, amended. For an address that \<open>encodeURIComponent\<close> accepts,
  \<open>fetchAddressStat\<close> never throws: whatever the attempts of the request give, it
  returns. It returns \<open>null\<close> when all three attempts fail and when the body has no
  truthy \<open>data\<close>. In the statistics it returns otherwise, each of \<open>openPosCount\<close>,
  \<open>closePosCount\<close>, \<open>avgPosDuration\<close>, \<open>totalPnl\<close> and \<open>maxDrawdown\<close> is set exactly
  when the raw value converts to a finite number, to that number, and \<open>winRate\<close> is set
  exactly when the raw value is a number, to that number. For an address that
  \<open>encodeURIComponent\<close> rejects, the \<open>URIError\<close> raised before the \<open>try\<close> block leaves
  the function.
\<close>

theorem fetchAddressStat_total:
  "(enc (normalizeAddress addr) = None \<longrightarrow>
      fetchAddressStat base enc sn upstream addr period = Inl URIError) \<and>
   (\<forall>encoded. enc (normalizeAddress addr) = Some encoded \<longrightarrow>
      (\<exists>r. fetchAddressStat base enc sn upstream addr period = Inr r) \<and>
      ((\<forall>k\<le>2. isl (upstream (addrStatUrl base encoded period) k)) \<longrightarrow>
         fetchAddressStat base enc sn upstream addr period = Inr None) \<and>
      (\<forall>payload. requestJson 2 (upstream (addrStatUrl base encoded period)) = Inr payload \<and>
                 \<not> truthy (jprop payload ''data'') \<longrightarrow>
         fetchAddressStat base enc sn upstream addr period = Inr None) \<and>
      (\<forall>stats. fetchAddressStat base enc sn upstream addr period = Inr (Some stats) \<longrightarrow>
         (\<exists>payload data.
            requestJson 2 (upstream (addrStatUrl base encoded period)) = Inr payload \<and>
            jprop payload ''data'' = Some data \<and>
            (\<forall>n. a_winRate stats = Some n \<longleftrightarrow> jprop data ''winRate'' = Some (JNum n)) \<and>
            (\<forall>n. a_openPosCount stats = Some n \<longleftrightarrow>
                   isFinite n \<and> NumberJ sn (jprop data ''openPosCount'') = n) \<and>
            (\<forall>n. a_closePosCount stats = Some n \<longleftrightarrow>
                   isFinite n \<and> NumberJ sn (jprop data ''closePosCount'') = n) \<and>
            (\<forall>n. a_avgPosDuration stats = Some n \<longleftrightarrow>
                   isFinite n \<and> NumberJ sn (jprop data ''avgPosDuration'') = n) \<and>
            (\<forall>n. a_totalPnl stats = Some n \<longleftrightarrow>
                   isFinite n \<and> NumberJ sn (jprop data ''totalPnl'') = n) \<and>
            (\<forall>n. a_maxDrawdown stats = Some n \<longleftrightarrow>
                   isFinite n \<and> NumberJ sn (jprop data ''maxDrawdown'') = n))))"
proof (intro conjI allI impI)
  assume "enc (normalizeAddress addr) = None"
  then show "fetchAddressStat base enc sn upstream addr period = Inl URIError"
    by (simp add: fetchAddressStat_def)
next
  fix encoded
  assume e: "enc (normalizeAddress addr) = Some encoded"
  have f: "fetchAddressStat base enc sn upstream addr period =
     (case requestJson 2 (upstream (addrStatUrl base encoded period)) of
        Inl err \<Rightarrow> Inr None
      | Inr payload \<Rightarrow>
          (if truthy (jprop payload ''data'')
           then Inr (Some \<lparr>
                  a_winRate = (case jprop (the (jprop payload ''data'')) ''winRate'' of
                                 Some (JNum n) \<Rightarrow> Some n | _ \<Rightarrow> None),
                  a_openPosCount = finiteField sn (the (jprop payload ''data'')) ''openPosCount'',
                  a_closePosCount = finiteField sn (the (jprop payload ''data'')) ''closePosCount'',
                  a_avgPosDuration = finiteField sn (the (jprop payload ''data'')) ''avgPosDuration'',
                  a_totalPnl = finiteField sn (the (jprop payload ''data'')) ''totalPnl'',
                  a_maxDrawdown = finiteField sn (the (jprop payload ''data'')) ''maxDrawdown'' \<rparr>)
           else Inr None))"
    using e by (rule fetchAddressStat_encoded)
  show "\<exists>r. fetchAddressStat base enc sn upstream addr period = Inr r"
    unfolding f by (cases "requestJson 2 (upstream (addrStatUrl base encoded period))") simp_all
  { assume "\<forall>k\<le>2. isl (upstream (addrStatUrl base encoded period) k)"
    then have "isl (requestJson 2 (upstream (addrStatUrl base encoded period)))"
      unfolding requestJson_def by (intro requestJsonLoop_all_fail) simp_all
    then show "fetchAddressStat base enc sn upstream addr period = Inr None"
      unfolding f by (cases "requestJson 2 (upstream (addrStatUrl base encoded period))") simp_all }
  { fix payload
    assume "requestJson 2 (upstream (addrStatUrl base encoded period)) = Inr payload \<and>
            \<not> truthy (jprop payload ''data'')"
    then show "fetchAddressStat base enc sn upstream addr period = Inr None"
      unfolding f by simp }
  { fix stats
    assume s: "fetchAddressStat base enc sn upstream addr period = Inr (Some stats)"
    then obtain payload where p: "requestJson 2 (upstream (addrStatUrl base encoded period)) = Inr payload"
      unfolding f by (cases "requestJson 2 (upstream (addrStatUrl base encoded period))") simp_all
    from s have t: "truthy (jprop payload ''data'')"
      unfolding f p by (simp split: if_splits)
    then obtain data where d: "jprop payload ''data'' = Some data"
      by (cases "jprop payload ''data''") simp_all
    from s have st: "stats = \<lparr>
                  a_winRate = (case jprop data ''winRate'' of
                                 Some (JNum n) \<Rightarrow> Some n | _ \<Rightarrow> None),
                  a_openPosCount = finiteField sn data ''openPosCount'',
                  a_closePosCount = finiteField sn data ''closePosCount'',
                  a_avgPosDuration = finiteField sn data ''avgPosDuration'',
                  a_totalPnl = finiteField sn data ''totalPnl'',
                  a_maxDrawdown = finiteField sn data ''maxDrawdown'' \<rparr>"
      unfolding f p using t d by simp
    have "(\<forall>n. a_winRate stats = Some n \<longleftrightarrow> jprop data ''winRate'' = Some (JNum n)) \<and>
            (\<forall>n. a_openPosCount stats = Some n \<longleftrightarrow>
                   isFinite n \<and> NumberJ sn (jprop data ''openPosCount'') = n) \<and>
            (\<forall>n. a_closePosCount stats = Some n \<longleftrightarrow>
                   isFinite n \<and> NumberJ sn (jprop data ''closePosCount'') = n) \<and>
            (\<forall>n. a_avgPosDuration stats = Some n \<longleftrightarrow>
                   isFinite n \<and> NumberJ sn (jprop data ''avgPosDuration'') = n) \<and>
            (\<forall>n. a_totalPnl stats = Some n \<longleftrightarrow>
                   isFinite n \<and> NumberJ sn (jprop data ''totalPnl'') = n) \<and>
            (\<forall>n. a_maxDrawdown stats = Some n \<longleftrightarrow>
                   isFinite n \<and> NumberJ sn (jprop data ''maxDrawdown'') = n)"
      unfolding st by (simp add: finiteField_iff winRate_field_iff)
    with p d show "\<exists>payload data.
            requestJson 2 (upstream (addrStatUrl base encoded period)) = Inr payload \<and>
            jprop payload ''data'' = Some data \<and>
            (\<forall>n. a_winRate stats = Some n \<longleftrightarrow> jprop data ''winRate'' = Some (JNum n)) \<and>
            (\<forall>n. a_openPosCount stats = Some n \<longleftrightarrow>
                   isFinite n \<and> NumberJ sn (jprop data ''openPosCount'') = n) \<and>
            (\<forall>n. a_closePosCount stats = Some n \<longleftrightarrow>
                   isFinite n \<and> NumberJ sn (jprop data ''closePosCount'') = n) \<and>
            (\<forall>n. a_avgPosDuration stats = Some n \<longleftrightarrow>
                   isFinite n \<and> NumberJ sn (jprop data ''avgPosDuration'') = n) \<and>
            (\<forall>n. a_totalPnl stats = Some n \<longleftrightarrow>
                   isFinite n \<and> NumberJ sn (jprop data ''totalPnl'') = n) \<and>
            (\<forall>n. a_maxDrawdown stats = Some n \<longleftrightarrow>
                   isFinite n \<and> NumberJ sn (jprop data ''maxDrawdown'') = n)"
      by blast }
qed

theorem fetchAddressStat_total_witness:
  "fetchAddressStat ''https://api/'' (\<lambda>s. None) (\<lambda>s. NaN) (\<lambda>url k. Inr (JObj [])) ''0xa'' 30 =
     Inl URIError \<and>
   fetchAddressStat ''https://api/'' (\<lambda>s. Some s) (\<lambda>s. NaN) (\<lambda>url k. Inl (HttpError 500))
     ''0xa'' 30 = Inr None \<and>
   fetchAddressStat ''https://api/'' (\<lambda>s. Some s) (\<lambda>s. NaN) (\<lambda>url k. Inr (JObj []))
     ''0xa'' 30 = Inr None \<and>
   fetchAddressStat ''https://api/'' (\<lambda>s. Some s) (\<lambda>s. NaN)
     (\<lambda>url k. if k < 2 then Inl TimeoutError else Inr exStatPayload) ''0xa'' 30 =
     Inr (Some \<lparr> a_winRate = Some PInf, a_openPosCount = None, a_closePosCount = None,
                 a_avgPosDuration = None, a_totalPnl = None,
                 a_maxDrawdown = Some (Fin (1 / 2)) \<rparr>) \<and>
   NumberJ (\<lambda>s. NaN) (jprop (JObj [(''winRate'', JNum PInf), (''maxDrawdown'', JNum (Fin (1 / 2)))])
     ''maxDrawdown'') = Fin (1 / 2)"
proof -
  have n: "normalizeAddress ''0xa'' = ''0xa''"
    by (simp add: normalizeAddress_def toLowerCase_def toLowerCaseChar_def)
  have a: "\<forall>k\<le>2. isl ((\<lambda>url k. Inl (HttpError 500) :: fetch_error + json)
             (addrStatUrl ''https://api/'' ''0xa'' 30) k)" by simp
  have b: "requestJson 2 ((\<lambda>url k. Inr (JObj [])) (addrStatUrl ''https://api/'' ''0xa'' 30)) =
             Inr (JObj []) \<and> \<not> truthy (jprop (JObj []) ''data'')"
    by (simp add: requestJson_def requestJsonLoop.simps)
  have c: "fetchAddressStat ''https://api/'' (\<lambda>s. Some s) (\<lambda>s. NaN)
     (\<lambda>url k. if k < 2 then Inl TimeoutError else Inr exStatPayload) ''0xa'' 30 =
     Inr (Some \<lparr> a_winRate = Some PInf, a_openPosCount = None, a_closePosCount = None,
                 a_avgPosDuration = None, a_totalPnl = None,
                 a_maxDrawdown = Some (Fin (1 / 2)) \<rparr>)"
    by (simp add: addrstat_defs)
  have d: "NumberJ (\<lambda>s. NaN) (jprop (JObj [(''winRate'', JNum PInf), (''maxDrawdown'', JNum (Fin (1 / 2)))])
     ''maxDrawdown'') = Fin (1 / 2)"
    by (simp add: NumberJ_def)
  show ?thesis
    using fetchAddressStat_total [of "\<lambda>s. None" "''0xa''" "''https://api/''" "\<lambda>s. NaN"
            "\<lambda>url k. Inr (JObj [])" 30]
      fetchAddressStat_total [of "\<lambda>s. Some s" "''0xa''" "''https://api/''" "\<lambda>s. NaN"
            "\<lambda>url k. Inl (HttpError 500)" 30]
      fetchAddressStat_total [of "\<lambda>s. Some s" "''0xa''" "''https://api/''" "\<lambda>s. NaN"
            "\<lambda>url k. Inr (JObj [])" 30]
      n a b c d
    by simp
qed

subsection \<open>The rows of the PnL points\<close>

lemma map_fst_mapSet:
  "map fst (mapSet m k v) = (if k \<in> fst ` set m then map fst m else map fst m @ [k])"
proof (induction m)
  case Nil
  then show ?case by simp
next
  case (Cons a m)
  obtain k' v' where a: "a = (k', v')" by (cases a)
  show ?case
  proof (cases "k' = k")
    case True
    with a show ?thesis by simp
  next
    case False
    with a Cons show ?thesis by (cases "k \<in> fst ` set m") auto
  qed
qed

lemma distinct_mapSet: "distinct (map fst m) \<Longrightarrow> distinct (map fst (mapSet m k v))"
  by (simp add: map_fst_mapSet)

lemma keys_mapSet: "fst ` set (mapSet m k v) = insert k (fst ` set m)"
proof -
  have "set (map fst (mapSet m k v)) = insert k (set (map fst m))"
    unfolding map_fst_mapSet by auto
  then show ?thesis by simp
qed

lemma foldl_setPnl:
  "distinct (map fst m) \<Longrightarrow>
   distinct (map fst (foldl setPnl m ps)) \<and>
   fst ` set (foldl setPnl m ps) = fst ` set m \<union> hp_ts ` set ps"
  by (induction ps arbitrary: m) (auto simp: setPnl_def Let_def distinct_mapSet keys_mapSet)

lemma foldl_setEquity:
  "distinct (map fst m) \<Longrightarrow>
   distinct (map fst (foldl setEquity m ps)) \<and>
   fst ` set (foldl setEquity m ps) = fst ` set m \<union> hp_ts ` set ps"
  by (induction ps arbitrary: m) (auto simp: setEquity_def Let_def distinct_mapSet keys_mapSet)

lemma distinct_map_sort_key: "distinct (map g (sort_key f xs)) = distinct (map g xs)"
proof -
  have "mset (map g (sort_key f xs)) = mset (map g xs)" by simp
  then show ?thesis by (rule mset_eq_imp_distinct_iff)
qed

lemma mergeHistories_distinct:
  "distinct (map ms_ts (mergeHistories series)) \<and>
   ms_ts ` set (mergeHistories series) =
     hp_ts ` (set (pw_pnlHistory series) \<union> set (pw_equityHistory series))"
proof -
  define m where "m = foldl setEquity (foldl setPnl [] (pw_pnlHistory series))
                        (pw_equityHistory series)"
  define F :: "jsnum \<times> jsnum option \<times> jsnum option \<Rightarrow> MergedSample"
    where "F = (\<lambda>(ts, values). \<lparr> ms_ts = ts, ms_pnl = fst values, ms_equity = snd values \<rparr>)"
  have F: "ms_ts \<circ> F = fst" by (auto simp: F_def)
  have m1: "distinct (map fst (foldl setPnl [] (pw_pnlHistory series)))"
      "fst ` set (foldl setPnl [] (pw_pnlHistory series)) = hp_ts ` set (pw_pnlHistory series)"
    using foldl_setPnl [of "[]" "pw_pnlHistory series"] by auto
  have m2: "distinct (map fst m)"
      "fst ` set m = hp_ts ` (set (pw_pnlHistory series) \<union> set (pw_equityHistory series))"
    using foldl_setEquity [OF m1(1), of "pw_equityHistory series"] m1(2)
    unfolding m_def by auto
  have mh: "mergeHistories series = sort_key (\<lambda>s. num_val (ms_ts s)) (map F m)"
    by (simp add: mergeHistories_def Let_def m_def F_def)
  have "distinct (map ms_ts (mergeHistories series))"
    unfolding mh distinct_map_sort_key using m2(1) by (simp add: F)
  moreover have "ms_ts ` set (mergeHistories series) = fst ` set m"
    unfolding mh using F by (simp add: image_image [symmetric] image_comp)
  ultimately show ?thesis using m2(2) by simp
qed

lemma newDate_whole:
  assumes "isWhole t" and "newDate t = Some d"
  shows "t = Fin (of_int d)"
proof (cases t)
  case (Fin r)
  with assms(1) have r: "r = of_int \<lfloor>r\<rfloor>" by simp
  then have "\<lceil>r\<rceil> = \<lfloor>r\<rfloor>" by (metis ceiling_of_int)
  with assms(2) Fin r show ?thesis by (auto simp: newDate_def split: if_splits)
qed (use assms in auto)

lemma distinct_map_filter:
  assumes "distinct (map k (filter P xs))"
    and "\<And>x a. x \<in> set xs \<Longrightarrow> f x = Some a \<Longrightarrow> P x"
    and "\<And>x y a b. x \<in> set xs \<Longrightarrow> y \<in> set xs \<Longrightarrow> f x = Some a \<Longrightarrow> f y = Some b \<Longrightarrow>
           g a = g b \<Longrightarrow> k x = k y"
  shows "distinct (map g (List.map_filter f xs))"
  using assms
proof (induction xs)
  case Nil
  then show ?case by (simp add: List.map_filter_simps)
next
  case (Cons x xs)
  have IH: "distinct (map g (List.map_filter f xs))"
  proof (rule Cons.IH)
    show "distinct (map k (filter P xs))"
      using Cons.prems(1) by (cases "P x") auto
  qed (use Cons.prems(2,3) in \<open>auto\<close>)
  show ?case
  proof (cases "f x")
    case None
    with IH show ?thesis by (simp add: List.map_filter_simps)
  next
    case (Some a)
    have px: "P x" using Cons.prems(2) [of x a] Some by simp
    have "g a \<notin> g ` set (List.map_filter f xs)"
    proof
      assume "g a \<in> g ` set (List.map_filter f xs)"
      then obtain b where b: "b \<in> set (List.map_filter f xs)" "g a = g b" by auto
      then obtain y where y: "y \<in> set xs" "f y = Some b"
        by (auto simp: List.map_filter_def)
      have "k x = k y" using Cons.prems(3) [of x y a b] Some y b(2) by simp
      moreover have "P y" using Cons.prems(2) [of y b] y by simp
      ultimately have "k x \<in> set (map k (filter P xs))" using y(1) by auto
      then show False using Cons.prems(1) px by simp
    qed
    with IH Some show ?thesis by (simp add: List.map_filter_simps)
  qed
qed

lemma distinct_concat_keyed:
  assumes "distinct (map tag xs)"
    and "\<And>x. x \<in> set xs \<Longrightarrow> distinct (map kt (F x))"
    and "\<And>x r. x \<in> set xs \<Longrightarrow> r \<in> set (F x) \<Longrightarrow> h (kt r) = tag x"
  shows "distinct (map kt (concat (map F xs)))"
  using assms
proof (induction xs)
  case Nil
  then show ?case by simp
next
  case (Cons x xs)
  have IH: "distinct (map kt (concat (map F xs)))"
    by (rule Cons.IH) (use Cons.prems in \<open>auto\<close>)
  have disj: "kt r \<noteq> kt r'" if "r \<in> set (F x)" "r' \<in> set (concat (map F xs))" for r r'
  proof
    assume eq: "kt r = kt r'"
    from that(2) obtain y where y: "y \<in> set xs" "r' \<in> set (F y)" by auto
    have "tag x = h (kt r)" using Cons.prems(3) [of x r] that(1) by simp
    moreover have "tag y = h (kt r')" using Cons.prems(3) [of y r'] y by simp
    ultimately have "tag x = tag y" using eq by simp
    then show False using Cons.prems(1) y(1) by auto
  qed
  have "distinct (map kt (F x))" using Cons.prems(2) by simp
  with IH disj show ?case by (auto simp: distinct_map inj_on_def)
qed

lemma distinct_rowId:
  "distinct (map pp_ts rows) \<Longrightarrow> distinct (map rowId rows)"
  by (induction rows) (auto simp: rowId_def)

lemma hyperbotRow_Some:
  "hyperbotRow sn period e pt = Some r \<Longrightarrow>
   isFinite (pointTimestamp pt) \<and> newDate (pointTimestamp pt) = Some (pp_ts r) \<and>
   pp_address r = toLowerCase (address e) \<and> pp_source r = ''hyperbot''"
  unfolding hyperbotRow_def Let_def
  by (cases "isFinite (pointTimestamp pt)"; cases "newDate (pointTimestamp pt)") auto

lemma hyperliquidRow_Some:
  "hyperliquidRow addr s x = Some r \<Longrightarrow>
   newDate (ms_ts x) = Some (pp_ts r) \<and>
   pp_address r = addr \<and> pp_source r = ''hyperliquid'' \<and> pp_window r = pw_window s"
  unfolding hyperliquidRow_def by (cases "newDate (ms_ts x)") auto

lemma hyperbotRows_fields:
  assumes "r \<in> set (hyperbotRows sn period e)"
  shows "pp_address r = toLowerCase (address e) \<and> pp_source r = ''hyperbot''"
proof -
  from assms obtain pt where "hyperbotRow sn period e pt = Some r"
    unfolding hyperbotRows_def using in_map_filterD by fastforce
  then show ?thesis using hyperbotRow_Some by blast
qed

lemma hyperliquidRows_fields:
  assumes "r \<in> set (hyperliquidRows period addr s)"
  shows "pp_address r = addr \<and> pp_source r = ''hyperliquid'' \<and> pp_window r = pw_window s"
proof -
  from assms have "r \<in> set (List.map_filter (hyperliquidRow addr s) (mergeHistories s))"
    unfolding hyperliquidRows_def
    by (cases "WINDOW_PERIOD_MAP (pw_window s) \<noteq> Some period") simp_all
  then obtain x where "hyperliquidRow addr s x = Some r"
    using in_map_filterD by fastforce
  then show ?thesis using hyperliquidRow_Some by blast
qed

lemma hyperbotRows_distinct:
  assumes "distinct (map pointTimestamp
             (filter (\<lambda>pt. isFinite (pointTimestamp pt))
                (nullish (r_pnlList (m_entry (meta e))) [])))"
    and "\<forall>pt\<in>set (nullish (r_pnlList (m_entry (meta e))) []).
           isFinite (pointTimestamp pt) \<longrightarrow> isWhole (pointTimestamp pt)"
  shows "distinct (map pp_ts (hyperbotRows sn period e))"
  unfolding hyperbotRows_def
proof (rule distinct_map_filter [where k = pointTimestamp
      and P = "\<lambda>pt. isFinite (pointTimestamp pt)"])
  show "distinct (map pointTimestamp (filter (\<lambda>pt. isFinite (pointTimestamp pt))
          (nullish (r_pnlList (m_entry (meta e))) [])))"
    by (rule assms(1))
next
  fix x a
  assume "hyperbotRow sn period e x = Some a"
  then show "isFinite (pointTimestamp x)" using hyperbotRow_Some by blast
next
  fix x y a b
  assume x: "x \<in> set (nullish (r_pnlList (m_entry (meta e))) [])"
    and y: "y \<in> set (nullish (r_pnlList (m_entry (meta e))) [])"
    and fx: "hyperbotRow sn period e x = Some a"
    and fy: "hyperbotRow sn period e y = Some b"
    and eq: "pp_ts a = pp_ts b"
  from fx have 1: "isFinite (pointTimestamp x)" "newDate (pointTimestamp x) = Some (pp_ts a)"
    using hyperbotRow_Some by blast+
  from fy have 2: "isFinite (pointTimestamp y)" "newDate (pointTimestamp y) = Some (pp_ts b)"
    using hyperbotRow_Some by blast+
  have "isWhole (pointTimestamp x)" "isWhole (pointTimestamp y)"
    using assms(2) x y 1(1) 2(1) by blast+
  then have "pointTimestamp x = Fin (of_int (pp_ts a))" "pointTimestamp y = Fin (of_int (pp_ts b))"
    using newDate_whole 1(2) 2(2) by blast+
  then show "pointTimestamp x = pointTimestamp y"
    using eq by simp
qed

lemma hyperliquidRows_distinct:
  assumes "\<forall>p\<in>set (pw_pnlHistory s) \<union> set (pw_equityHistory s). isWhole (hp_ts p)"
  shows "distinct (map pp_ts (hyperliquidRows period addr s))"
proof (cases "WINDOW_PERIOD_MAP (pw_window s) \<noteq> Some period")
  case True
  then show ?thesis by (simp add: hyperliquidRows_def)
next
  case False
  have whole: "isWhole (ms_ts x)" if "x \<in> set (mergeHistories s)" for x
  proof -
    have "ms_ts x \<in> hp_ts ` (set (pw_pnlHistory s) \<union> set (pw_equityHistory s))"
      using that mergeHistories_distinct [of s] by blast
    then show ?thesis using assms by auto
  qed
  have "distinct (map pp_ts (List.map_filter (hyperliquidRow addr s) (mergeHistories s)))"
  proof (rule distinct_map_filter [where k = ms_ts and P = "\<lambda>x. True"])
    show "distinct (map ms_ts (filter (\<lambda>x. True) (mergeHistories s)))"
      using mergeHistories_distinct [of s] by simp
  next
    fix x y a b
    assume x: "x \<in> set (mergeHistories s)" and y: "y \<in> set (mergeHistories s)"
      and fx: "hyperliquidRow addr s x = Some a"
      and fy: "hyperliquidRow addr s y = Some b"
      and eq: "pp_ts a = pp_ts b"
    from fx have 1: "newDate (ms_ts x) = Some (pp_ts a)" using hyperliquidRow_Some by blast
    from fy have 2: "newDate (ms_ts y) = Some (pp_ts b)" using hyperliquidRow_Some by blast
    show "ms_ts x = ms_ts y"
      using newDate_whole [OF whole [OF x] 1] newDate_whole [OF whole [OF y] 2] eq by simp
  qed simp
  with False show ?thesis by (simp add: hyperliquidRows_def)
qed

lemma concat_chunksOf: "0 < n \<Longrightarrow> concat (chunksOf n xs) = xs"
proof (induction n xs rule: chunksOf.induct)
  case (1 chunkSize xs)
  show ?case
  proof (cases "xs = []")
    case True
    then show ?thesis by (subst chunksOf.simps) simp
  next
    case False
    then have "concat (chunksOf chunkSize (drop chunkSize xs)) = drop chunkSize xs"
      using "1.IH" "1.prems" by simp
    with False "1.prems" show ?thesis by (subst chunksOf.simps) simp
  qed
qed

lemma exTracked_eval:
  "map (\<lambda>e. (address e, r_pnlList (m_entry (meta e)))) (exTracked t1 t2) =
     [(''0xa'', Some [PtObj (Some t1) (Some (NumV (Fin 5))) None,
                     PtObj (Some t2) (Some (NumV (Fin 6))) None])]"
  by (simp add: exTracked_def exPnlRaw_def trackedOf_def phase2_defs phase1_defs score_defs
        parsedValue_def ddStep_def Math_max_list_def)

lemma exTracked_single:
  "\<exists>e. exTracked t1 t2 = [e] \<and> address e = ''0xa'' \<and>
       r_pnlList (m_entry (meta e)) =
         Some [PtObj (Some t1) (Some (NumV (Fin 5))) None,
               PtObj (Some t2) (Some (NumV (Fin 6))) None]"
proof -
  from exTracked_eval [of t1 t2] obtain e where "exTracked t1 t2 = [e]"
    by (cases "exTracked t1 t2") auto
  with exTracked_eval [of t1 t2] show ?thesis by auto
qed

text \<open>
  The rows for a tracked entry are pushed point by point, with no check for a timestamp
  seen before: an entry whose PnL list has two points with the timestamp 1 gives two rows
  with the same address, source, window and timestamp in one INSERT.
\<close>

theorem pnl_points_counterexample:
  "map (map rowId) (insertPnlPointsInTransaction (\<lambda>s. NaN) 30 (exTracked (Fin 1) (Fin 1)) []) =
     [[((''0xa'', ''hyperbot'', ''period_30''), 1), ((''0xa'', ''hyperbot'', ''period_30''), 1)]]"
proof -
  obtain e where e: "exTracked (Fin 1) (Fin 1) = [e]" "address e = ''0xa''"
      "r_pnlList (m_entry (meta e)) =
         Some [PtObj (Some (Fin 1)) (Some (NumV (Fin 5))) None,
               PtObj (Some (Fin 1)) (Some (NumV (Fin 6))) None]"
    using exTracked_single by blast
  have sh: "showNat 30 = ''30''"
    by (simp add: showNat.simps showDigit_def)
  show ?thesis
    by (simp add: e insertPnlPointsInTransaction_def pnlPoints_def hyperbotRows_def
          hyperbotRow_def chunksOf.simps rowId_def rowKey_def newDate_def NumberOpt_def sh
          nullish_def List.map_filter_def toLowerCase_def toLowerCaseChar_def Let_def)
qed

text \<open>
  Claim C8, amended. Within one transaction at most one row is inserted for every
  address, source, window name and timestamp, provided that the tracked entries have
  pairwise different addresses, the finite timestamps of each \<open>meta.pnlList\<close> are pairwise
  different, the series of one address have pairwise different window names (the
  addresses of the series map are its keys), and all timestamps are whole numbers of
  milliseconds. The only check in the code is the map of \<open>mergeHistories\<close>, which keeps
  one sample per timestamp of one series.
\<close>

theorem pnl_points_unique:
  assumes "distinct (map (\<lambda>e. toLowerCase (address e)) tracked)"
    and "\<forall>e\<in>set tracked.
           distinct (map pointTimestamp (filter (\<lambda>pt. isFinite (pointTimestamp pt))
                       (nullish (r_pnlList (m_entry (meta e))) []))) \<and>
           (\<forall>pt\<in>set (nullish (r_pnlList (m_entry (meta e))) []).
              isFinite (pointTimestamp pt) \<longrightarrow> isWhole (pointTimestamp pt))"
    and "distinct (map fst hyperliquidSeries)"
    and "\<forall>(addr, seriesList)\<in>set hyperliquidSeries.
           distinct (map pw_window seriesList) \<and>
           (\<forall>s\<in>set seriesList.
              \<forall>p\<in>set (pw_pnlHistory s) \<union> set (pw_equityHistory s). isWhole (hp_ts p))"
  shows "distinct (map rowId
           (concat (insertPnlPointsInTransaction sn period tracked hyperliquidSeries)))"
proof -
  define A where "A = concat (map (hyperbotRows sn period) tracked)"
  define G where "G = (\<lambda>(addr, seriesList). concat (map (hyperliquidRows period addr) seriesList))"
  define B where "B = concat (map G hyperliquidSeries)"
  have dA: "distinct (map rowId A)"
    unfolding A_def
  proof (rule distinct_concat_keyed [where tag = "\<lambda>e. toLowerCase (address e)"
        and h = "\<lambda>i. fst (fst i)"])
    show "distinct (map (\<lambda>e. toLowerCase (address e)) tracked)" by (rule assms(1))
  next
    fix e assume e: "e \<in> set tracked"
    note h = bspec [OF assms(2) e]
    show "distinct (map rowId (hyperbotRows sn period e))"
      by (rule distinct_rowId, rule hyperbotRows_distinct)
         (rule conjunct1 [OF h], rule conjunct2 [OF h])
  next
    fix e r assume "e \<in> set tracked" "r \<in> set (hyperbotRows sn period e)"
    then have "pp_address r = toLowerCase (address e)"
      using hyperbotRows_fields by blast
    then show "fst (fst (rowId r)) = toLowerCase (address e)"
      by (simp add: rowId_def rowKey_def)
  qed
  have dG: "distinct (map rowId (G x))" if "x \<in> set hyperliquidSeries" for x
  proof -
    obtain addr seriesList where x: "x = (addr, seriesList)" by (cases x)
    have h: "distinct (map pw_window seriesList) \<and>
           (\<forall>s\<in>set seriesList.
              \<forall>p\<in>set (pw_pnlHistory s) \<union> set (pw_equityHistory s). isWhole (hp_ts p))"
      using bspec [OF assms(4) that] unfolding x by simp
    have w: "distinct (map pw_window seriesList)" by (rule conjunct1 [OF h])
    have ws: "\<forall>p\<in>set (pw_pnlHistory s) \<union> set (pw_equityHistory s). isWhole (hp_ts p)"
      if "s \<in> set seriesList" for s
      by (rule bspec [OF conjunct2 [OF h] that])
    have "distinct (map rowId (concat (map (hyperliquidRows period addr) seriesList)))"
    proof (rule distinct_concat_keyed [where tag = pw_window and h = "\<lambda>i. snd (snd (fst i))"])
      show "distinct (map pw_window seriesList)" by (rule w)
    next
      fix s assume "s \<in> set seriesList"
      then show "distinct (map rowId (hyperliquidRows period addr s))"
        by (intro distinct_rowId hyperliquidRows_distinct ws)
    next
      fix s r assume "s \<in> set seriesList" "r \<in> set (hyperliquidRows period addr s)"
      then have "pp_window r = pw_window s"
        using hyperliquidRows_fields by blast
      then show "snd (snd (fst (rowId r))) = pw_window s"
        by (simp add: rowId_def rowKey_def)
    qed
    then show ?thesis by (simp add: G_def x)
  qed
  have fG: "fst (fst (rowId r)) = fst x \<and> pp_source r = ''hyperliquid''"
    if "x \<in> set hyperliquidSeries" "r \<in> set (G x)" for x r
  proof -
    obtain addr seriesList where x: "x = (addr, seriesList)" by (cases x)
    from that(2) obtain s where "r \<in> set (hyperliquidRows period addr s)"
      by (auto simp: G_def x)
    then have "pp_address r = addr \<and> pp_source r = ''hyperliquid''"
      using hyperliquidRows_fields by blast
    then show ?thesis
      by (simp add: rowId_def rowKey_def x)
  qed
  have dB: "distinct (map rowId B)"
    unfolding B_def
  proof (rule distinct_concat_keyed [where tag = fst and h = "\<lambda>i. fst (fst i)"])
    show "distinct (map fst hyperliquidSeries)" by (rule assms(3))
  next
    fix x assume "x \<in> set hyperliquidSeries"
    then show "distinct (map rowId (G x))" by (rule dG)
  next
    fix x r assume "x \<in> set hyperliquidSeries" "r \<in> set (G x)"
    then show "fst (fst (rowId r)) = fst x" using fG by blast
  qed
  have sA: "pp_source r = ''hyperbot''" if "r \<in> set A" for r
  proof -
    from that obtain e where "r \<in> set (hyperbotRows sn period e)" by (auto simp: A_def)
    then show ?thesis using hyperbotRows_fields by blast
  qed
  have sB: "pp_source r = ''hyperliquid''" if "r \<in> set B" for r
  proof -
    from that obtain x where "x \<in> set hyperliquidSeries" "r \<in> set (G x)"
      by (auto simp: B_def)
    then show ?thesis using fG by blast
  qed
  have disj: "rowId a \<noteq> rowId b" if "a \<in> set A" "b \<in> set B" for a b
  proof
    assume "rowId a = rowId b"
    then have "pp_source a = pp_source b" by (simp add: rowId_def rowKey_def)
    with sA [OF that(1)] sB [OF that(2)] show False by simp
  qed
  have inter: "set (map rowId A) \<inter> set (map rowId B) = {}"
  proof (rule equals0I)
    fix i assume "i \<in> set (map rowId A) \<inter> set (map rowId B)"
    then have "i \<in> rowId ` set A" "i \<in> rowId ` set B" by simp_all
    then obtain a b where ab: "a \<in> set A" "b \<in> set B" "rowId a = i" "rowId b = i"
      by (elim imageE) simp
    show False using disj [OF ab(1,2)] ab(3,4) by simp
  qed
  have AB: "distinct (map rowId (A @ B))"
    unfolding map_append distinct_append using dA dB inter by (intro conjI)
  have points: "pnlPoints sn period tracked hyperliquidSeries = A @ B"
    unfolding pnlPoints_def A_def B_def G_def by (rule refl)
  have "concat (chunksOf 400 (A @ B)) = A @ B"
    by (rule concat_chunksOf) simp
  then show ?thesis
    unfolding insertPnlPointsInTransaction_def points using AB by simp
qed

theorem pnl_points_unique_witness:
  "distinct (map rowId
     (concat (insertPnlPointsInTransaction (\<lambda>s. NaN) 30 (exTracked (Fin 1) (Fin 2))
        [(''0xa'', [exSeries])])))"
proof -
  obtain e where e: "exTracked (Fin 1) (Fin 2) = [e]" "address e = ''0xa''"
      "r_pnlList (m_entry (meta e)) =
         Some [PtObj (Some (Fin 1)) (Some (NumV (Fin 5))) None,
               PtObj (Some (Fin 2)) (Some (NumV (Fin 6))) None]"
    using exTracked_single by blast
  have h1: "distinct (map (\<lambda>e. toLowerCase (address e)) (exTracked (Fin 1) (Fin 2)))"
    by (simp add: e)
  have h2: "\<forall>e\<in>set (exTracked (Fin 1) (Fin 2)).
           distinct (map pointTimestamp (filter (\<lambda>pt. isFinite (pointTimestamp pt))
                       (nullish (r_pnlList (m_entry (meta e))) []))) \<and>
           (\<forall>pt\<in>set (nullish (r_pnlList (m_entry (meta e))) []).
              isFinite (pointTimestamp pt) \<longrightarrow> isWhole (pointTimestamp pt))"
    by (simp add: e nullish_def NumberOpt_def)
  have h3: "distinct (map fst [(''0xa'', [exSeries])])"
    by simp
  have h4: "\<forall>(addr, seriesList)\<in>set [(''0xa'', [exSeries])].
           distinct (map pw_window seriesList) \<and>
           (\<forall>s\<in>set seriesList.
              \<forall>p\<in>set (pw_pnlHistory s) \<union> set (pw_equityHistory s). isWhole (hp_ts p))"
    by (simp add: exSeries_def)
  show ?thesis
    by (rule pnl_points_unique [OF h1 h2 h3 h4])
qed

end
